theory Spec2Isabelle
  imports Main "HOL-Library.Sublist" "HOL-Library.Product_Lexorder"
begin

section \<open>Text primitives of the experience extractor\<close>

text \<open>
  The engine of \<^verbatim>\<open>backend/core/nlp_processor.py\<close> works on Python strings. A text is
  modelled as a \<^typ>\<open>string\<close>, read as ASCII: the case mappings below move the letters
  a-z and A-Z and leave every other character alone, and white space is what
  \<^verbatim>\<open>str.strip\<close> and the regular-expression class \<^verbatim>\<open>\s\<close> both take for white space
  below code 128 (codes 9-13, 28-31 and 32).
\<close>

definition code :: "char \<Rightarrow> nat" where
  "code c = of_char c"

definition is_upper :: "char \<Rightarrow> bool" where
  "is_upper c = (65 \<le> code c \<and> code c \<le> 90)"

definition is_lower :: "char \<Rightarrow> bool" where
  "is_lower c = (97 \<le> code c \<and> code c \<le> 122)"

definition is_alpha :: "char \<Rightarrow> bool" where
  "is_alpha c = (is_upper c \<or> is_lower c)"

definition is_digit :: "char \<Rightarrow> bool" where
  "is_digit c = (48 \<le> code c \<and> code c \<le> 57)"

definition is_space :: "char \<Rightarrow> bool" where
  "is_space c = ((9 \<le> code c \<and> code c \<le> 13) \<or> (28 \<le> code c \<and> code c \<le> 32))"

definition upper_char :: "char \<Rightarrow> char" where
  "upper_char c = (if is_lower c then char_of (code c - 32) else c)"

definition lower_char :: "char \<Rightarrow> char" where
  "lower_char c = (if is_upper c then char_of (code c + 32) else c)"

text \<open>\<^verbatim>\<open>s.upper()\<close> and \<^verbatim>\<open>s.lower()\<close>.\<close>

definition upper :: "string \<Rightarrow> string" where
  "upper s = map upper_char s"

definition lower :: "string \<Rightarrow> string" where
  "lower s = map lower_char s"

text \<open>\<^verbatim>\<open>s.strip()\<close>: leading and trailing white space removed.\<close>

definition strip :: "string \<Rightarrow> string" where
  "strip s = rev (dropWhile is_space (rev (dropWhile is_space s)))"

text \<open>\<^verbatim>\<open>s.startswith(p)\<close> is \<^const>\<open>prefix\<close>; \<^verbatim>\<open>sub in s\<close> is the search below.\<close>

fun contains :: "string \<Rightarrow> string \<Rightarrow> bool" where
  "contains [] sub = (sub = [])"
| "contains (c # cs) sub = (prefix sub (c # cs) \<or> contains cs sub)"

text \<open>
  \<^verbatim>\<open>s.find(sub)\<close>: the lowest index at which \<^verbatim>\<open>sub\<close> occurs, \<^const>\<open>None\<close> for
  Python's \<^verbatim>\<open>-1\<close>; \<^verbatim>\<open>s.find(sub, start)\<close> searches from \<^verbatim>\<open>start\<close> on.
\<close>

fun str_find :: "string \<Rightarrow> string \<Rightarrow> nat option" where
  "str_find [] sub = (if sub = [] then Some 0 else None)"
| "str_find (c # cs) sub =
     (if prefix sub (c # cs) then Some 0 else map_option Suc (str_find cs sub))"

definition find_from :: "string \<Rightarrow> string \<Rightarrow> nat \<Rightarrow> nat option" where
  "find_from s sub start =
     (if length s < start then None
      else map_option (\<lambda>i. start + i) (str_find (drop start s) sub))"

text \<open>
  \<^verbatim>\<open>s.split(sep)\<close> for a separator that is not empty (every separator of the engine is
  a literal: a newline, a hyphen, two spaces, \<^verbatim>\<open>20XX\<close>). The pieces are cut at the
  occurrences of the separator, read from the left without overlap; \<open>acc\<close> holds the
  current piece, reversed.
\<close>

function split_acc :: "string \<Rightarrow> string \<Rightarrow> string \<Rightarrow> string list" where
  "split_acc sep acc [] = [rev acc]"
| "split_acc sep acc (c # cs) =
     (if prefix sep (c # cs) then rev acc # split_acc sep [] (drop (length sep - 1) cs)
      else split_acc sep (c # acc) cs)"
  by pat_completeness auto
termination
  by (relation "measure (\<lambda>(sep, acc, s). length s)") auto

definition split :: "string \<Rightarrow> string \<Rightarrow> string list" where
  "split s sep = split_acc sep [] s"

section \<open>Errors\<close>

text \<open>
  The exceptions the extractor's own statements could raise: an index out of range in
  \<^verbatim>\<open>match[i]\<close>, \<^verbatim>\<open>parts[i]\<close>, \<^verbatim>\<open>potential_sections[0]\<close> or \<^verbatim>\<open>m.group(i)\<close>, and a tuple
  unpacked into the wrong number of names (a \<^verbatim>\<open>ValueError\<close>).
\<close>

datatype error = IndexError | ValueError

definition nth_chk :: "'a list \<Rightarrow> nat \<Rightarrow> error + 'a" where
  "nth_chk xs i = (if i < length xs then Inr (xs ! i) else Inl IndexError)"

text \<open>\<^verbatim>\<open>a, b, c, d = xs\<close> and \<^verbatim>\<open>a, b = xs\<close>.\<close>

fun unpack4 :: "'a list \<Rightarrow> error + 'a \<times> 'a \<times> 'a \<times> 'a" where
  "unpack4 [a, b, c, d] = Inr (a, b, c, d)"
| "unpack4 xs = Inl ValueError"

fun unpack2 :: "'a list \<Rightarrow> error + 'a \<times> 'a" where
  "unpack2 [a, b] = Inr (a, b)"
| "unpack2 xs = Inl ValueError"

definition bind :: "error + 'a \<Rightarrow> ('a \<Rightarrow> error + 'b) \<Rightarrow> error + 'b" where
  "bind m f = (case m of Inl e \<Rightarrow> Inl e | Inr v \<Rightarrow> f v)"

text \<open>A loop that appends what each element yields, stopping at the first exception.\<close>

fun for_each :: "('a \<Rightarrow> error + 'b list) \<Rightarrow> 'a list \<Rightarrow> error + 'b list" where
  "for_each f [] = Inr []"
| "for_each f (x # xs) =
     (case f x of Inl e \<Rightarrow> Inl e
      | Inr ys \<Rightarrow> (case for_each f xs of Inl e \<Rightarrow> Inl e | Inr zs \<Rightarrow> Inr (ys @ zs)))"

section \<open>Regular expressions\<close>

text \<open>
  The patterns of the engine use character classes, literals, concatenation,
  alternation, the greedy repetitions \<^verbatim>\<open>*\<close>, \<^verbatim>\<open>+\<close> and \<^verbatim>\<open>{4}\<close>, and capture groups that
  stand side by side at the top of the pattern. \<^verbatim>\<open>re\<close> matches by backtracking: of all
  the ways a pattern matches at a position it takes the first in priority order (a
  repetition prefers one more round, an alternation its left branch). \<open>rmatch r s\<close>
  lists, in that order, what is left of \<open>s\<close> after each way \<open>r\<close> matches a prefix of it.
  A round of a repetition has to consume a character for the repetition to go on (no
  body of a repetition in the patterns below matches the empty string). The patterns have
  no anchor and no look-behind, so a match at a position depends on the text from that
  position on only.
\<close>

datatype cls = Is char | Not char | Upper | Lower | Alpha | Digit | Space

fun in_cls :: "cls \<Rightarrow> char \<Rightarrow> bool" where
  "in_cls (Is a) c = (c = a)"
| "in_cls (Not a) c = (c \<noteq> a)"
| "in_cls Upper c = is_upper c"
| "in_cls Lower c = is_lower c"
| "in_cls Alpha c = is_alpha c"
| "in_cls Digit c = is_digit c"
| "in_cls Space c = is_space c"

datatype rx = Sym cls | Lit string | Seq rx rx | Alt rx rx | Star rx

function rmatch :: "rx \<Rightarrow> string \<Rightarrow> string list" where
  "rmatch (Sym k) s = (case s of [] \<Rightarrow> [] | c # cs \<Rightarrow> if in_cls k c then [cs] else [])"
| "rmatch (Lit w) s = (if prefix w s then [drop (length w) s] else [])"
| "rmatch (Seq a b) s = concat (map (rmatch b) (rmatch a s))"
| "rmatch (Alt a b) s = rmatch a s @ rmatch b s"
| "rmatch (Star r) s =
     concat (map (rmatch (Star r)) (filter (\<lambda>t. length t < length s) (rmatch r s))) @ [s]"
  by pat_completeness auto
termination
  by (relation "measures [\<lambda>(r, s). size r, \<lambda>(r, s). length s]") auto

text \<open>The equation of the repetition calls itself on any text: the simplifier gets it by name.\<close>

declare rmatch.simps(5) [simp del]

definition Plus :: "rx \<Rightarrow> rx" where
  "Plus r = Seq r (Star r)"

definition Four :: "rx \<Rightarrow> rx" where
  "Four r = Seq r (Seq r (Seq r r))"

text \<open>
  A pattern is a row of items, each a capture group or a stretch outside every group.
  A configuration is the groups captured so far and the text still to be read.
\<close>

datatype item = Cap rx | Out rx

fun ncaps :: "item list \<Rightarrow> nat" where
  "ncaps [] = 0"
| "ncaps (Cap r # p) = Suc (ncaps p)"
| "ncaps (Out r # p) = ncaps p"

fun step :: "item \<Rightarrow> string list \<times> string \<Rightarrow> (string list \<times> string) list" where
  "step (Out r) (caps, s) = map (Pair caps) (rmatch r s)"
| "step (Cap r) (caps, s) =
     map (\<lambda>t. (caps @ [take (length s - length t) s], t)) (rmatch r s)"

fun pmatch :: "item list \<Rightarrow> (string list \<times> string) list \<Rightarrow> (string list \<times> string) list" where
  "pmatch [] cfgs = cfgs"
| "pmatch (i # p) cfgs = pmatch p (concat (map (step i) cfgs))"

text \<open>The match of a pattern at the start of \<open>s\<close>: the first configuration, if any.\<close>

definition match_here :: "item list \<Rightarrow> string \<Rightarrow> (string list \<times> string) option" where
  "match_here p s = (case pmatch p [([], s)] of [] \<Rightarrow> None | m # ms \<Rightarrow> Some m)"

text \<open>
  \<^verbatim>\<open>re.search(p, s)\<close>: the match at the leftmost position that has one; the value is the
  list of its groups, \<^verbatim>\<open>m.group(1)\<close> first.
\<close>

fun search :: "item list \<Rightarrow> string \<Rightarrow> string list option" where
  "search p [] = map_option fst (match_here p [])"
| "search p (c # cs) =
     (case match_here p (c # cs) of Some m \<Rightarrow> Some (fst m) | None \<Rightarrow> search p cs)"

text \<open>
  \<^verbatim>\<open>re.findall(p, s)\<close> for a pattern with two groups or more: the group tuples of the
  matches, left to right without overlap. The scan resumes where a match ended; after
  a match that consumed nothing it moves one character on (no pattern of the engine
  has such a match: each needs at least one character).
\<close>

function findall :: "item list \<Rightarrow> string \<Rightarrow> string list list" where
  "findall p [] = (case match_here p [] of None \<Rightarrow> [] | Some m \<Rightarrow> [fst m])"
| "findall p (c # cs) =
     (case match_here p (c # cs) of
        None \<Rightarrow> findall p cs
      | Some m \<Rightarrow> fst m # (if length (snd m) < length (c # cs) then findall p (snd m)
                          else findall p cs))"
  by pat_completeness auto
termination
  by (relation "measure (\<lambda>(p, s). length s)") auto

text \<open>
  \<^verbatim>\<open>re.sub(p, '', s)\<close>: every match of \<open>p\<close>, left to right without overlap, is cut out of
  \<open>s\<close>.
\<close>

function sub_cut :: "item list \<Rightarrow> string \<Rightarrow> string" where
  "sub_cut p [] = []"
| "sub_cut p (c # cs) =
     (case match_here p (c # cs) of
        None \<Rightarrow> c # sub_cut p cs
      | Some m \<Rightarrow> (if length (snd m) < length (c # cs) then sub_cut p (snd m)
                  else c # sub_cut p cs))"
  by pat_completeness auto
termination
  by (relation "measure (\<lambda>(p, s). length s)") auto

section \<open>Data model\<close>

text \<open>The dictionary of a job entry, with its six fixed keys.\<close>

record entry =
  title :: string
  company :: string
  start_date :: string
  end_date :: string
  location :: string
  description :: string

text \<open>
  An element of \<^verbatim>\<open>potential_sections\<close>: the keys \<^verbatim>\<open>header\<close>, \<^verbatim>\<open>position\<close>, \<^verbatim>\<open>text\<close> and
  \<^verbatim>\<open>score\<close> (the third is the local \<^verbatim>\<open>section_text\<close>).
\<close>

record candidate =
  header :: string
  position :: nat
  section_text :: string
  score :: int

section \<open>Locating the experience section\<close>

definition experience_headers :: "string list" where
  "experience_headers =
     [''PROFESSIONAL EXPERIENCE'', ''EXPERIENCE'', ''WORK HISTORY'', ''EMPLOYMENT'',
      ''WORK EXPERIENCE'', ''EMPLOYMENT HISTORY'', ''CAREER HISTORY'', ''JOB HISTORY'']"

definition next_sections :: "string list" where
  "next_sections = [''Education'', ''Skills'', ''Projects'', ''Certifications'']"

text \<open>
  The loop over \<^verbatim>\<open>next_sections\<close>: \<open>acc\<close> is \<^verbatim>\<open>next_section_pos\<close>, \<^const>\<open>None\<close> for
  \<^verbatim>\<open>-1\<close>.
\<close>

fun next_section_loop :: "string \<Rightarrow> string list \<Rightarrow> nat option \<Rightarrow> nat option" where
  "next_section_loop after_header [] acc = acc"
| "next_section_loop after_header (section # rest) acc =
     (case str_find after_header section of
        None \<Rightarrow> next_section_loop after_header rest acc
      | Some section_pos \<Rightarrow>
          (case acc of
             None \<Rightarrow> next_section_loop after_header rest (Some section_pos)
           | Some n \<Rightarrow>
               if section_pos < n then next_section_loop after_header rest (Some section_pos)
               else next_section_loop after_header rest acc))"

definition next_section_pos :: "string \<Rightarrow> nat option" where
  "next_section_pos after_header = next_section_loop after_header next_sections None"

definition bounded_block :: "string \<Rightarrow> string" where
  "bounded_block after_header =
     (case next_section_pos after_header of
        Some n \<Rightarrow> strip (take n after_header)
      | None \<Rightarrow> strip after_header)"

definition job_keywords :: "string list" where
  "job_keywords = [''manager'', ''engineer'', ''developer'', ''intern'', ''assistant'',
     ''specialist'', ''analyst'']"

definition summary_keywords :: "string list" where
  "summary_keywords = [''summary'', ''passionate'', ''building'', ''developing'',
     ''experience in'']"

text \<open>\<^verbatim>\<open>sum(1 for keyword in keywords if keyword in section_text.lower())\<close>.\<close>

definition keyword_count :: "string list \<Rightarrow> string \<Rightarrow> nat" where
  "keyword_count keywords t = length (filter (contains (lower t)) keywords)"

definition job_keyword_count :: "string \<Rightarrow> nat" where
  "job_keyword_count t = keyword_count job_keywords t"

definition summary_keyword_count :: "string \<Rightarrow> nat" where
  "summary_keyword_count t = keyword_count summary_keywords t"

definition section_score :: "string \<Rightarrow> string \<Rightarrow> int" where
  "section_score hdr t =
     (let score = 0;
          score = (if hdr = ''PROFESSIONAL EXPERIENCE'' then score + 10 else score);
          score = (if length t > 100 then score + 5 else score);
          score = score + int (job_keyword_count t) * 2;
          score = score - int (summary_keyword_count t) * 3;
          score = (if length t < 50 then score - 5 else score)
      in score)"

definition candidate_at :: "string \<Rightarrow> string \<Rightarrow> nat \<Rightarrow> candidate" where
  "candidate_at text hdr pos =
     (let after_header = drop (pos + length hdr) text;
          t = bounded_block after_header
      in \<lparr>header = hdr, position = pos, section_text = t, score = section_score hdr t\<rparr>)"

lemma find_le: "str_find s sub = Some i \<Longrightarrow> i \<le> length s"
  by (induction s arbitrary: i) (auto split: if_splits)

lemma find_from_bounds: "find_from s sub start = Some pos \<Longrightarrow> start \<le> pos \<and> pos \<le> length s"
  by (auto simp: find_from_def split: if_splits dest!: find_le)

text \<open>The \<^verbatim>\<open>while True\<close> loop over the occurrences of one header.\<close>

function scan_header :: "string \<Rightarrow> string \<Rightarrow> nat \<Rightarrow> candidate list" where
  "scan_header text hdr start =
     (case find_from (upper text) hdr start of
        None \<Rightarrow> []
      | Some pos \<Rightarrow> candidate_at text hdr pos # scan_header text hdr (pos + 1))"
  by pat_completeness auto
termination
proof (relation "measure (\<lambda>(text, hdr, start). Suc (length text) - start)")
  show "wf (measure (\<lambda>(text, hdr, start). Suc (length text) - start))" by simp
next
  fix doc hdr :: string and start pos :: nat
  assume "find_from (upper doc) hdr start = Some pos"
  then have "start \<le> pos \<and> pos \<le> length doc"
    using find_from_bounds [of "upper doc" hdr start pos] by (simp add: upper_def)
  then show "((doc, hdr, pos + 1), (doc, hdr, start))
      \<in> measure (\<lambda>(text, hdr, start). Suc (length text) - start)"
    by auto
qed

definition potential_sections :: "string \<Rightarrow> candidate list" where
  "potential_sections text = concat (map (\<lambda>hdr. scan_header text hdr 0) experience_headers)"

text \<open>
  \<^verbatim>\<open>sort(key=lambda x: (x['score'], x['position']), reverse=True)\<close>: a stable sort on the
  reversed list, reversed again.
\<close>

definition sort_key_of :: "candidate \<Rightarrow> int \<times> nat" where
  "sort_key_of x = (score x, position x)"

definition sort_sections :: "candidate list \<Rightarrow> candidate list" where
  "sort_sections cs = rev (sort_key sort_key_of (rev cs))"

section \<open>The patterns\<close>

definition sp :: rx where
  "sp = Sym Space"

text \<open>\<^verbatim>\<open>[A-Z][a-z]+(?:\s+[A-Z][a-z]+)*\<close>\<close>

definition cap_word :: rx where
  "cap_word = Seq (Sym Upper) (Plus (Sym Lower))"

definition title_case :: rx where
  "title_case = Seq cap_word (Star (Seq (Plus sp) cap_word))"

text \<open>\<^verbatim>\<open>([^|]+)\s*\|\s*([^(]+)\s*\(([^)]+)\)\<close>\<close>

definition pipe_pattern :: "item list" where
  "pipe_pattern =
     [Cap (Plus (Sym (Not CHR ''|''))), Out (Star sp), Out (Sym (Is CHR ''|'')), Out (Star sp),
      Cap (Plus (Sym (Not CHR ''(''))), Out (Star sp), Out (Sym (Is CHR ''('')),
      Cap (Plus (Sym (Not CHR '')''))), Out (Sym (Is CHR '')''))]"

text \<open>\<^verbatim>\<open>(20XX|\d{4})\<close>\<close>

definition year :: rx where
  "year = Alt (Lit ''20XX'') (Four (Sym Digit))"

text \<open>
  \<^verbatim>\<open>(20XX|\d{4})\s+Present\s+(T)\s+(T)\s+(T)\<close> and \<^verbatim>\<open>(20XX|\d{4})\s+(20XX|\d{4})\s+(T)\s+(T)\s+(T)\<close>,
  with \<^verbatim>\<open>T\<close> for \<^const>\<open>title_case\<close>.
\<close>

definition date_patterns :: "item list list" where
  "date_patterns =
     [[Cap year, Out (Plus sp), Out (Lit ''Present''), Out (Plus sp), Cap title_case,
       Out (Plus sp), Cap title_case, Out (Plus sp), Cap title_case],
      [Cap year, Out (Plus sp), Cap year, Out (Plus sp), Cap title_case,
       Out (Plus sp), Cap title_case, Out (Plus sp), Cap title_case]]"

text \<open>\<^verbatim>\<open>([^,]+),\s+([^(]+)\s+([^-]+)-([^-]+)\<close>\<close>

definition pattern3 :: "item list" where
  "pattern3 =
     [Cap (Plus (Sym (Not CHR '',''))), Out (Sym (Is CHR '','')), Out (Plus sp),
      Cap (Plus (Sym (Not CHR ''(''))), Out (Plus sp), Cap (Plus (Sym (Not CHR ''-''))),
      Out (Sym (Is CHR ''-'')), Cap (Plus (Sym (Not CHR ''-'')))]"

text \<open>\<^verbatim>\<open>([^-]+)-\s*([^(]+)\s*\(([^-]+)-([^)]+)\)\<close>\<close>

definition pattern4 :: "item list" where
  "pattern4 =
     [Cap (Plus (Sym (Not CHR ''-''))), Out (Sym (Is CHR ''-'')), Out (Star sp),
      Cap (Plus (Sym (Not CHR ''(''))), Out (Star sp), Out (Sym (Is CHR ''('')),
      Cap (Plus (Sym (Not CHR ''-''))), Out (Sym (Is CHR ''-'')),
      Cap (Plus (Sym (Not CHR '')''))), Out (Sym (Is CHR '')''))]"

text \<open>\<^verbatim>\<open>([^-]+)-\s*([^-]+)\<close>\<close>

definition pattern5 :: "item list" where
  "pattern5 =
     [Cap (Plus (Sym (Not CHR ''-''))), Out (Sym (Is CHR ''-'')), Out (Star sp),
      Cap (Plus (Sym (Not CHR ''-'')))]"

text \<open>\<^verbatim>\<open>\s+[A-Za-z]+\s+\d{4}\<close>\<close>

definition month_year_pattern :: "item list" where
  "month_year_pattern =
     [Out (Plus sp), Out (Plus (Sym Alpha)), Out (Plus sp), Out (Four (Sym Digit))]"

text \<open>
  The three patterns of the whole-text search, with \<^verbatim>\<open>T\<close> for \<^const>\<open>title_case\<close>:
  \<^verbatim>\<open>(T),\s+(T)\s+([A-Za-z]+\s+20XX)\s*-\s*([A-Za-z]+\s+20XX|Current)\<close>,
  \<^verbatim>\<open>(T)\s*-\s*(T)\s*\(([A-Za-z]+\s+\d{4})\s*-\s*Present\)\<close> and \<^verbatim>\<open>(T)\s*-\s*(T)\<close>.
\<close>

definition month_20XX :: rx where
  "month_20XX = Seq (Plus (Sym Alpha)) (Seq (Plus sp) (Lit ''20XX''))"

definition job_pattern1 :: "item list" where
  "job_pattern1 =
     [Cap title_case, Out (Sym (Is CHR '','')), Out (Plus sp), Cap title_case, Out (Plus sp),
      Cap month_20XX, Out (Star sp), Out (Sym (Is CHR ''-'')), Out (Star sp),
      Cap (Alt month_20XX (Lit ''Current''))]"

definition job_pattern2 :: "item list" where
  "job_pattern2 =
     [Cap title_case, Out (Star sp), Out (Sym (Is CHR ''-'')), Out (Star sp), Cap title_case,
      Out (Star sp), Out (Sym (Is CHR ''('')),
      Cap (Seq (Plus (Sym Alpha)) (Seq (Plus sp) (Four (Sym Digit)))),
      Out (Star sp), Out (Sym (Is CHR ''-'')), Out (Star sp), Out (Lit ''Present)'')]"

definition job_pattern3 :: "item list" where
  "job_pattern3 =
     [Cap title_case, Out (Star sp), Out (Sym (Is CHR ''-'')), Out (Star sp), Cap title_case]"

definition job_patterns :: "item list list" where
  "job_patterns = [job_pattern1, job_pattern2, job_pattern3]"

section \<open>The extraction strategies\<close>

text \<open>
  The split of \<^verbatim>\<open>title_company\<close> at a double space, which the pipe and the date-first
  strategies both carry; \<open>dflt\<close> is the company when there is nothing to split (the
  empty string in the first, a group of the match in the second).
\<close>

definition split_title_company :: "string \<Rightarrow> error + string \<Rightarrow> error + string \<times> string" where
  "split_title_company title_company dflt =
     (if contains title_company ''  '' then
        (let parts = split title_company ''  '' in
         if length parts \<ge> 2 then
           bind (nth_chk parts 0) (\<lambda>p0. bind (nth_chk parts 1) (\<lambda>p1. Inr (strip p0, strip p1)))
         else bind dflt (\<lambda>d. Inr (title_company, d)))
      else bind dflt (\<lambda>d. Inr (title_company, d)))"

definition parse_date_range :: "string \<Rightarrow> error + string \<times> string" where
  "parse_date_range date_range =
     (if contains date_range ''Present'' then
        bind (nth_chk (split date_range ''-'') 0) (\<lambda>d0. Inr (strip d0, ''Present''))
      else
        (let dates = split date_range ''-'' in
         if length dates = 2 then
           bind (nth_chk dates 0) (\<lambda>d0. bind (nth_chk dates 1) (\<lambda>d1. Inr (strip d0, strip d1)))
         else Inr (date_range, [])))"

text \<open>The body of the loop of \<^verbatim>\<open>_extract_with_pipe_format\<close> over the matches.\<close>

definition pipe_entry :: "string list \<Rightarrow> error + entry list" where
  "pipe_entry match =
     bind (nth_chk match 0) (\<lambda>m0. bind (nth_chk match 1) (\<lambda>m1. bind (nth_chk match 2) (\<lambda>m2.
       (let title_company = strip m0; date_range = strip m1; loc = strip m2 in
        bind (split_title_company title_company (Inr [])) (\<lambda>(ttl, comp).
        bind (parse_date_range date_range) (\<lambda>(sd, ed).
          Inr [\<lparr>title = ttl, company = comp, start_date = sd, end_date = ed,
                location = loc, description = []\<rparr>]))))))"

definition extract_with_pipe_format :: "string \<Rightarrow> error + entry list" where
  "extract_with_pipe_format experience_block =
     for_each pipe_entry (findall pipe_pattern experience_block)"

text \<open>The body of the inner loop of \<^verbatim>\<open>_extract_with_date_first_format\<close>.\<close>

definition date_first_entry :: "string list \<Rightarrow> error + entry list" where
  "date_first_entry match =
     (if length match = 4 then
        bind (nth_chk match 1) (\<lambda>m1.
        bind (split_title_company (strip m1) (nth_chk match 2)) (\<lambda>(ttl, comp).
        bind (nth_chk match 0) (\<lambda>m0. bind (nth_chk match 3) (\<lambda>m3.
          Inr [\<lparr>title = ttl, company = comp, start_date = m0, end_date = ''Present'',
                location = m3, description = []\<rparr>]))))
      else if length match = 5 then
        bind (nth_chk match 2) (\<lambda>m2.
        bind (split_title_company (strip m2) (nth_chk match 3)) (\<lambda>(ttl, comp).
        bind (nth_chk match 0) (\<lambda>m0. bind (nth_chk match 1) (\<lambda>m1. bind (nth_chk match 4) (\<lambda>m4.
          Inr [\<lparr>title = ttl, company = comp, start_date = m0, end_date = m1,
                location = m4, description = []\<rparr>])))))
      else Inr [])"

definition extract_with_date_first_format :: "string \<Rightarrow> error + entry list" where
  "extract_with_date_first_format experience_block =
     for_each (\<lambda>pattern. for_each date_first_entry (findall pattern experience_block))
       date_patterns"

text \<open>
  The lines \<^verbatim>\<open>_extract_with_line_by_line_processing\<close> skips as descriptions. Its first
  test, \<^verbatim>\<open>line.startswith\<close> of the bullet U+2022, is false of every ASCII line and has
  no disjunct here.
\<close>

definition is_description_line :: "string \<Rightarrow> bool" where
  "is_description_line line =
     (prefix ''-'' line \<or>
      contains line ''Developed'' \<or> contains line ''Built'' \<or> contains line ''Integrated'' \<or>
      contains line ''Increased'' \<or> contains line ''Deployed'' \<or> contains line ''Handled'' \<or>
      contains line ''Summarize'' \<or> contains (lower line) ''responsibilities'' \<or>
      contains (lower line) ''passionate'' \<or> contains (lower line) ''building'' \<or>
      length line > 100)"

definition months :: "string list" where
  "months = [''January'', ''February'', ''March'', ''April'', ''May'', ''June'', ''July'',
     ''August'', ''September'', ''October'', ''November'', ''December'']"

text \<open>What the line-by-line strategy does with a match of each of its three patterns.\<close>

definition pattern3_entry :: "string list \<Rightarrow> error + entry list" where
  "pattern3_entry groups =
     bind (nth_chk groups 0) (\<lambda>g1. bind (nth_chk groups 1) (\<lambda>g2.
     bind (nth_chk groups 2) (\<lambda>g3. bind (nth_chk groups 3) (\<lambda>g4.
       (let ttl = strip g1; company_date = strip g2; sd = strip g3; ed = strip g4;
            ttl = (if prefix ''e '' ttl then strip (drop 2 ttl) else ttl)
        in bind
          (if contains company_date ''20XX'' then
             bind (nth_chk (split company_date ''20XX'') 0) (\<lambda>c. Inr (strip c))
           else if list_ex (contains company_date) months then
             Inr (strip (sub_cut month_year_pattern company_date))
           else Inr company_date)
          (\<lambda>comp.
             if length ttl > 3 \<and> length comp > 3 \<and>
                \<not> contains company_date ''Summarize'' \<and>
                \<not> contains company_date ''responsibilities'' \<and>
                length company_date < 50
             then Inr [\<lparr>title = ttl, company = comp, start_date = sd, end_date = ed,
                        location = [], description = []\<rparr>]
             else Inr []))))))"

definition pattern4_entry :: "string list \<Rightarrow> error + entry list" where
  "pattern4_entry groups =
     bind (nth_chk groups 0) (\<lambda>g1. bind (nth_chk groups 1) (\<lambda>g2.
     bind (nth_chk groups 2) (\<lambda>g3. bind (nth_chk groups 3) (\<lambda>g4.
       (let ttl = strip g1; comp = strip g2; sd = strip g3; ed = strip g4;
            ttl = (if prefix ''ce: '' ttl then strip (drop 4 ttl) else ttl)
        in if length ttl > 3 \<and> length comp > 3 \<and> \<not> contains comp ''Developed'' \<and>
              length comp < 50
           then Inr [\<lparr>title = ttl, company = comp, start_date = sd, end_date = ed,
                      location = [], description = []\<rparr>]
           else Inr [])))))"

definition pattern5_entry :: "string list \<Rightarrow> error + entry list" where
  "pattern5_entry groups =
     bind (nth_chk groups 0) (\<lambda>g1. bind (nth_chk groups 1) (\<lambda>g2.
       (let ttl = strip g1; comp = strip g2;
            ttl = (if prefix ''e: '' ttl then strip (drop 3 ttl) else ttl)
        in if length ttl > 3 \<and> length comp > 3 \<and>
              (contains ttl ''Intern'' \<or> contains ttl ''Developer'' \<or> contains ttl ''Engineer'' \<or>
               contains ttl ''Manager'' \<or> contains ttl ''Assistant'' \<or>
               contains ttl ''Specialist'') \<and>
              \<not> contains comp ''Built'' \<and> \<not> contains comp ''Integrated'' \<and>
              length comp < 50
           then Inr [\<lparr>title = ttl, company = comp, start_date = [], end_date = [],
                      location = [], description = []\<rparr>]
           else Inr [])))"

text \<open>The body of the loop over the lines: no entry, or one.\<close>

definition line_entry :: "string \<Rightarrow> error + entry list" where
  "line_entry raw =
     (let line = strip raw in
      if line = [] then Inr []
      else if is_description_line line then Inr []
      else
        (case search pattern3 line of
           Some groups \<Rightarrow> pattern3_entry groups
         | None \<Rightarrow>
             (case search pattern4 line of
                Some groups \<Rightarrow> pattern4_entry groups
              | None \<Rightarrow>
                  (case search pattern5 line of
                     Some groups \<Rightarrow> pattern5_entry groups
                   | None \<Rightarrow> Inr []))))"

definition extract_with_line_by_line_processing :: "string \<Rightarrow> error + entry list" where
  "extract_with_line_by_line_processing experience_block =
     for_each line_entry (split experience_block [CHR 0x0A])"

text \<open>\<^verbatim>\<open>'Intern' in title or 'Developer' in title or 'Engineer' in title or 'Manager' in title\<close>\<close>

definition has_role :: "string \<Rightarrow> bool" where
  "has_role ttl =
     (contains ttl ''Intern'' \<or> contains ttl ''Developer'' \<or> contains ttl ''Engineer'' \<or>
      contains ttl ''Manager'')"

text \<open>
  The body of the inner loop of \<^verbatim>\<open>_extract_experience_from_entire_text\<close>: a match is
  dispatched on the number of its groups, four or two.
\<close>

definition entire_text_entry :: "string list \<Rightarrow> error + entry list" where
  "entire_text_entry match =
     (if length match = 4 then
        bind (unpack4 match) (\<lambda>(ttl, comp, sd, ed).
          if has_role ttl
          then Inr [\<lparr>title = strip ttl, company = strip comp, start_date = strip sd,
                     end_date = strip ed, location = [], description = []\<rparr>]
          else Inr [])
      else if length match = 2 then
        bind (unpack2 match) (\<lambda>(ttl, comp).
          if has_role ttl
          then Inr [\<lparr>title = strip ttl, company = strip comp, start_date = [],
                     end_date = [], location = [], description = []\<rparr>]
          else Inr [])
      else Inr [])"

definition extract_experience_from_entire_text :: "string \<Rightarrow> error + entry list" where
  "extract_experience_from_entire_text text =
     for_each (\<lambda>pattern. for_each entire_text_entry (findall pattern text)) job_patterns"

section \<open>The engine\<close>

definition extract_experience :: "string \<Rightarrow> error + entry list" where
  "extract_experience text =
     (let sections = sort_sections (potential_sections text) in
      bind (if sections \<noteq> [] then bind (nth_chk sections 0) (\<lambda>best. Inr (score best > 0))
            else Inr False)
        (\<lambda>usable.
           if usable then
             bind (nth_chk sections 0) (\<lambda>best.
               (let experience_block = section_text best in
                if experience_block \<noteq> [] then
                  bind (extract_with_pipe_format experience_block) (\<lambda>experience.
                  bind (if experience = [] then extract_with_date_first_format experience_block
                        else Inr experience) (\<lambda>experience.
                  bind (if experience = []
                        then extract_with_line_by_line_processing experience_block
                        else Inr experience) (\<lambda>experience.
                  if experience = [] then extract_experience_from_entire_text text
                  else Inr experience)))
                else Inr []))
           else extract_experience_from_entire_text text))"

text \<open>
  The section the engine settles on, as a value of its own: the head of the sorted
  candidates when its score is positive (the test that opens the \<^verbatim>\<open>if\<close> after the
  sort), \<^const>\<open>None\<close> when there is no candidate or the best score is not positive.
\<close>

definition locate :: "string \<Rightarrow> candidate option" where
  "locate text =
     (case sort_sections (potential_sections text) of
        [] \<Rightarrow> None
      | best # rest \<Rightarrow> if score best > 0 then Some best else None)"

text \<open>
  The cascade over a block as the engine runs it: each strategy is called only when
  the ones before it returned the empty list.
\<close>

definition cascade :: "string \<Rightarrow> string \<Rightarrow> error + entry list" where
  "cascade experience_block text =
     bind (extract_with_pipe_format experience_block) (\<lambda>experience.
     bind (if experience = [] then extract_with_date_first_format experience_block
           else Inr experience) (\<lambda>experience.
     bind (if experience = [] then extract_with_line_by_line_processing experience_block
           else Inr experience) (\<lambda>experience.
     if experience = [] then extract_experience_from_entire_text text else Inr experience)))"

section \<open>The scenarios of the specification\<close>

definition scenario_A :: string where
  "scenario_A = ''PROFESSIONAL EXPERIENCE'' @ [CHR 0x0A] @
     ''Software Engineer | TechCorp (Jan 2020 - Present)'' @ [CHR 0x0A] @
     ''EDUCATION'' @ [CHR 0x0A] @ ''...''"

definition block_A :: string where
  "block_A = ''Software Engineer | TechCorp (Jan 2020 - Present)'' @ [CHR 0x0A] @
     ''EDUCATION'' @ [CHR 0x0A] @ ''...''"

definition entry_A :: entry where
  "entry_A = \<lparr>title = ''Software Engineer'', company = [], start_date = ''TechCorp'',
     end_date = [], location = ''Jan 2020 - Present'', description = []\<rparr>"

definition scenario_B :: string where
  "scenario_B = ''EXPERIENCE'' @ [CHR 0x0A] @
     ''Data Analyst, Acme Corp January 2021 - March 2022'' @ [CHR 0x0A] @ ''EDUCATION''"

definition block_B :: string where
  "block_B = ''Data Analyst, Acme Corp January 2021 - March 2022'' @ [CHR 0x0A] @ ''EDUCATION''"

definition entry_B :: entry where
  "entry_B = \<lparr>title = ''Data Analyst'', company = ''Acme Corp January'', start_date = ''2021'',
     end_date = ''March 2022'', location = [], description = []\<rparr>"

definition scenario_C :: string where
  "scenario_C = ''SUMMARY'' @ [CHR 0x0A] @
     ''Passionate about building scalable systems with 5 years of experience in backend development.''"

text \<open>Further inputs, one for each way through the cascade.\<close>

definition text_D :: string where
  "text_D = ''PROFESSIONAL EXPERIENCE'' @ [CHR 0x0A] @
     ''2019 2021 Software Engineer Google Boston''"

definition block_D :: string where
  "block_D = ''2019 2021 Software Engineer Google Boston''"

definition entry_D :: entry where
  "entry_D = \<lparr>title = ''Software Engineer'', company = ''Google'', start_date = ''2019'',
     end_date = ''2021'', location = ''Boston'', description = []\<rparr>"

definition text_F :: string where
  "text_F = ''Software Engineer - Google'' @ [CHR 0x0A] @ ''EXPERIENCE'' @ [CHR 0x0A] @
     ''engineer manager developer''"

definition block_F :: string where
  "block_F = ''engineer manager developer''"

definition entry_F :: entry where
  "entry_F = \<lparr>title = ''Software Engineer'', company = ''Google'', start_date = [],
     end_date = [], location = [], description = []\<rparr>"

definition text_E :: string where
  "text_E = ''Software Engineer - Google'' @ [CHR 0x0A] @ ''PROFESSIONAL EXPERIENCE''"

definition text_G :: string where
  "text_G = ''PROFESSIONAL EXPERIENCE'' @ [CHR 0x0A, CHR 0x0A] @ ''Skills'' @ [CHR 0x0A] @
     ''Lead Developer - Initech''"

definition entry_G :: entry where
  "entry_G = \<lparr>title = ''Skills'' @ [CHR 0x0A] @ ''Lead Developer'', company = ''Initech'',
     start_date = [], end_date = [], location = [], description = []\<rparr>"

text \<open>
  A text with two occurrences of the same header whose blocks have the same score, and
  a different pipe-format line under each.
\<close>

definition text_T :: string where
  "text_T = ''PROFESSIONAL EXPERIENCE'' @ [CHR 0x0A] @ ''Dev | 19 (A)'' @ [CHR 0x0A] @
     ''PROFESSIONAL EXPERIENCE'' @ [CHR 0x0A] @ ''QA | 21 (B)''"

definition block_T :: string where
  "block_T = ''QA | 21 (B)''"

definition first_T :: candidate where
  "first_T = \<lparr>header = ''PROFESSIONAL EXPERIENCE'', position = 0,
     section_text = ''Dev | 19 (A)'' @ [CHR 0x0A] @ ''PROFESSIONAL EXPERIENCE'' @ [CHR 0x0A] @
       ''QA | 21 (B)'',
     score = 5\<rparr>"

definition best_T :: candidate where
  "best_T = \<lparr>header = ''PROFESSIONAL EXPERIENCE'', position = 37, section_text = block_T,
     score = 5\<rparr>"

definition rest_T :: "candidate list" where
  "rest_T =
     [first_T,
      \<lparr>header = ''EXPERIENCE'', position = 50, section_text = block_T, score = - 5\<rparr>,
      \<lparr>header = ''EXPERIENCE'', position = 13, section_text = section_text first_T,
        score = - 5\<rparr>]"

definition entry_T :: entry where
  "entry_T = \<lparr>title = ''QA'', company = [], start_date = ''21'', end_date = [],
     location = ''B'', description = []\<rparr>"

text \<open>Stripped blocks of 50, 46 and 6 characters with no keyword in them.\<close>

definition block_W :: string where
  "block_W = ''Led the data platform team for three years at Acme''"

definition block_V :: string where
  "block_V = ''Ran a small support desk for two years at Acme''"

definition block_S :: string where
  "block_S = ''Senior''"

text \<open>The headings of the next sections written in capitals, and two texts after a header.\<close>

definition upper_headings :: "string list" where
  "upper_headings = [''EDUCATION'', ''SKILLS'', ''PROJECTS'', ''CERTIFICATIONS'']"


definition after_U :: string where
  "after_U = [CHR 0x0A] @ ''Intern at Acme'' @ [CHR 0x0A] @ ''EDUCATION'' @ [CHR 0x0A] @ ''SKILLS''"

definition after_M :: string where
  "after_M = [CHR 0x0A] @ ''Intern at Acme'' @ [CHR 0x0A] @ ''EDUCATION'' @ [CHR 0x0A] @
     ''BSc'' @ [CHR 0x0A] @ ''Skills'' @ [CHR 0x0A] @ ''Python''"

text \<open>A text with a match of each pattern of the whole-text search.\<close>

definition text_P :: string where
  "text_P = ''Lead Developer, Initech Corp June 20XX - Current.'' @ [CHR 0x0A] @
     ''Data Engineer - Acme (March 2021 - Present)''"

definition entries_P :: "entry list" where
  "entries_P =
     [\<lparr>title = ''Lead Developer'', company = ''Initech Corp'', start_date = ''June 20XX'',
        end_date = ''Current'', location = [], description = []\<rparr>,
      \<lparr>title = ''Data Engineer'', company = ''Acme'', start_date = [], end_date = [],
        location = [], description = []\<rparr>]"

section \<open>Character classes on the bits of a character\<close>

text \<open>
  The tests and case mappings above, read off the eight bits of the character (lowest
  first); evaluation on concrete texts runs on these equations.
\<close>

lemma code_Char:
  "code (Char b0 b1 b2 b3 b4 b5 b6 b7) =
     of_bool b0 + 2 * of_bool b1 + 4 * of_bool b2 + 8 * of_bool b3 + 16 * of_bool b4 +
     32 * of_bool b5 + 64 * of_bool b6 + 128 * of_bool b7"
  by (simp add: code_def)

lemma is_lower_Char [code]:
  "is_lower (Char b0 b1 b2 b3 b4 b5 b6 b7) =
     (\<not> b7 \<and> b6 \<and> b5 \<and> (b0 \<or> b1 \<or> b2 \<or> b3 \<or> b4) \<and> \<not> (b4 \<and> b3 \<and> (b2 \<or> (b1 \<and> b0))))"
  unfolding is_lower_def code_Char
  by (cases b0; cases b1; cases b2; cases b3; cases b4; cases b5; cases b6; cases b7; simp)

lemma is_upper_Char [code]:
  "is_upper (Char b0 b1 b2 b3 b4 b5 b6 b7) =
     (\<not> b7 \<and> b6 \<and> \<not> b5 \<and> (b0 \<or> b1 \<or> b2 \<or> b3 \<or> b4) \<and> \<not> (b4 \<and> b3 \<and> (b2 \<or> (b1 \<and> b0))))"
  unfolding is_upper_def code_Char
  by (cases b0; cases b1; cases b2; cases b3; cases b4; cases b5; cases b6; cases b7; simp)

lemma is_digit_Char [code]:
  "is_digit (Char b0 b1 b2 b3 b4 b5 b6 b7) =
     (\<not> b7 \<and> \<not> b6 \<and> b5 \<and> b4 \<and> \<not> (b3 \<and> (b2 \<or> b1)))"
  unfolding is_digit_def code_Char
  by (cases b0; cases b1; cases b2; cases b3; cases b4; cases b5; cases b6; cases b7; simp)

lemma is_space_Char [code]:
  "is_space (Char b0 b1 b2 b3 b4 b5 b6 b7) =
     (\<not> b7 \<and> \<not> b6 \<and>
      ((b5 \<and> \<not> b4 \<and> \<not> b3 \<and> \<not> b2 \<and> \<not> b1 \<and> \<not> b0) \<or>
       (\<not> b5 \<and> b4 \<and> b3 \<and> b2) \<or>
       (\<not> b5 \<and> \<not> b4 \<and> b3 \<and> (b0 \<or> b1 \<or> b2) \<and> \<not> (b2 \<and> b1))))"
  unfolding is_space_def code_Char
  by (cases b0; cases b1; cases b2; cases b3; cases b4; cases b5; cases b6; cases b7; simp)

lemma upper_char_Char [code]:
  "upper_char (Char b0 b1 b2 b3 b4 b5 b6 b7) =
     (if is_lower (Char b0 b1 b2 b3 b4 b5 b6 b7) then Char b0 b1 b2 b3 b4 False b6 b7
      else Char b0 b1 b2 b3 b4 b5 b6 b7)"
  unfolding upper_char_def is_lower_Char code_Char
  by (cases b0; cases b1; cases b2; cases b3; cases b4; cases b5; cases b6; cases b7;
      simp add: char_of_def bit_Suc_0_iff)

lemma lower_char_Char [code]:
  "lower_char (Char b0 b1 b2 b3 b4 b5 b6 b7) =
     (if is_upper (Char b0 b1 b2 b3 b4 b5 b6 b7) then Char b0 b1 b2 b3 b4 True b6 b7
      else Char b0 b1 b2 b3 b4 b5 b6 b7)"
  unfolding lower_char_def is_upper_Char code_Char
  by (cases b0; cases b1; cases b2; cases b3; cases b4; cases b5; cases b6; cases b7;
      simp add: char_of_def bit_Suc_0_iff)

section \<open>No statement of the engine raises\<close>

lemma for_each_ok:
  "(\<And>x. x \<in> set xs \<Longrightarrow> \<exists>ys. f x = Inr ys) \<Longrightarrow> \<exists>zs. for_each f xs = Inr zs"
proof (induction xs)
  case Nil
  then show ?case by simp
next
  case (Cons x xs)
  from Cons.prems obtain ys where "f x = Inr ys" by auto
  moreover from Cons obtain zs where "for_each f xs = Inr zs" by auto
  ultimately show ?case by simp
qed

lemma step_caps:
  "(caps', t) \<in> set (step i cfg) \<Longrightarrow> length caps' = length (fst cfg) + ncaps [i]"
  by (cases i; cases cfg) auto

lemma pmatch_caps:
  "(caps', t) \<in> set (pmatch p cfgs) \<Longrightarrow>
     \<exists>cfg \<in> set cfgs. length caps' = length (fst cfg) + ncaps p"
proof (induction p arbitrary: cfgs)
  case Nil
  then show ?case by force
next
  case (Cons i p)
  then obtain cfg where c: "cfg \<in> set (concat (map (step i) cfgs))"
    and l: "length caps' = length (fst cfg) + ncaps p" by fastforce
  from c obtain cfg0 where c0: "cfg0 \<in> set cfgs" and m: "cfg \<in> set (step i cfg0)" by auto
  from m have "length (fst cfg) = length (fst cfg0) + ncaps [i]"
    using step_caps [of "fst cfg" "snd cfg" i cfg0] by simp
  with l c0 show ?case by (cases i) auto
qed

lemma match_here_caps: "match_here p s = Some m \<Longrightarrow> length (fst m) = ncaps p"
proof -
  assume "match_here p s = Some m"
  then have "m \<in> set (pmatch p [([], s)])"
    by (auto simp: match_here_def split: list.splits)
  then show ?thesis using pmatch_caps [of "fst m" "snd m" p "[([], s)]"] by simp
qed

lemma findall_caps: "m \<in> set (findall p s) \<Longrightarrow> length m = ncaps p"
  by (induction p s rule: findall.induct)
     (auto split: option.splits if_splits dest: match_here_caps match_here_caps [OF sym])

lemma search_caps: "search p s = Some g \<Longrightarrow> length g = ncaps p"
  by (induction p s rule: search.induct)
     (auto split: option.splits dest: match_here_caps match_here_caps [OF sym])

lemma split_acc_not_empty: "split_acc sep acc s \<noteq> []"
  by (induction sep acc s rule: split_acc.induct) auto

lemma split_not_empty: "0 < length (split s sep)"
  by (simp add: split_def split_acc_not_empty)

lemma split_title_company_ok:
  "\<exists>d. dflt = Inr d \<Longrightarrow> \<exists>r. split_title_company tc dflt = Inr r"
  by (auto simp: split_title_company_def Let_def nth_chk_def bind_def)

lemma parse_date_range_ok: "\<exists>r. parse_date_range d = Inr r"
  using split_not_empty [of d "''-''"]
  by (auto simp: parse_date_range_def Let_def nth_chk_def bind_def)

lemma pipe_entry_ok: "length m = 3 \<Longrightarrow> \<exists>es. pipe_entry m = Inr es"
proof -
  assume l: "length m = 3"
  obtain t c where tc: "split_title_company (strip (m ! 0)) (Inr []) = Inr (t, c)"
    using split_title_company_ok [of "Inr []" "strip (m ! 0)"] by auto
  obtain sd ed where d: "parse_date_range (strip (m ! 1)) = Inr (sd, ed)"
    using parse_date_range_ok [of "strip (m ! 1)"] by auto
  show ?thesis using l tc d by (simp add: pipe_entry_def nth_chk_def bind_def)
qed

lemma pipe_ok: "\<exists>es. extract_with_pipe_format b = Inr es"
  unfolding extract_with_pipe_format_def
proof (rule for_each_ok)
  fix m assume "m \<in> set (findall pipe_pattern b)"
  then have "length m = ncaps pipe_pattern" by (rule findall_caps)
  then have "length m = 3" by (simp add: pipe_pattern_def)
  then show "\<exists>ys. pipe_entry m = Inr ys" by (rule pipe_entry_ok)
qed

lemma date_first_entry_ok: "\<exists>es. date_first_entry m = Inr es"
proof -
  have a: "length m = 4 \<Longrightarrow> ?thesis"
  proof -
    assume l: "length m = 4"
    obtain t c where "split_title_company (strip (m ! 1)) (nth_chk m 2) = Inr (t, c)"
      using split_title_company_ok [of "nth_chk m 2" "strip (m ! 1)"] l
      by (auto simp: nth_chk_def)
    then show ?thesis using l by (simp add: date_first_entry_def nth_chk_def bind_def)
  qed
  have b: "length m = 5 \<Longrightarrow> ?thesis"
  proof -
    assume l: "length m = 5"
    obtain t c where "split_title_company (strip (m ! 2)) (nth_chk m 3) = Inr (t, c)"
      using split_title_company_ok [of "nth_chk m 3" "strip (m ! 2)"] l
      by (auto simp: nth_chk_def)
    then show ?thesis using l by (simp add: date_first_entry_def nth_chk_def bind_def)
  qed
  show ?thesis using a b by (cases "length m = 4 \<or> length m = 5") (auto simp: date_first_entry_def)
qed

lemma date_first_ok: "\<exists>es. extract_with_date_first_format b = Inr es"
  unfolding extract_with_date_first_format_def
  by (intro for_each_ok date_first_entry_ok)

lemma length_four: "length m = 4 \<Longrightarrow> \<exists>a b c d. m = [a, b, c, d]"
  by (auto simp: eval_nat_numeral length_Suc_conv)

lemma length_two: "length m = 2 \<Longrightarrow> \<exists>a b. m = [a, b]"
  by (auto simp: eval_nat_numeral length_Suc_conv)

lemma entire_text_entry_ok: "\<exists>es. entire_text_entry m = Inr es"
proof -
  have "length m = 4 \<Longrightarrow> ?thesis"
    using length_four [of m] by (auto simp: entire_text_entry_def bind_def)
  moreover have "length m = 2 \<Longrightarrow> ?thesis"
    using length_two [of m] by (auto simp: entire_text_entry_def bind_def)
  moreover have "length m \<noteq> 4 \<Longrightarrow> length m \<noteq> 2 \<Longrightarrow> ?thesis"
    by (simp add: entire_text_entry_def)
  ultimately show ?thesis by blast
qed

lemma entire_text_ok: "\<exists>es. extract_experience_from_entire_text t = Inr es"
  unfolding extract_experience_from_entire_text_def
  by (intro for_each_ok entire_text_entry_ok)

lemma pattern3_entry_ok: "length g = 4 \<Longrightarrow> \<exists>es. pattern3_entry g = Inr es"
  using split_not_empty [of "strip (g ! 1)" "''20XX''"]
  by (auto simp: pattern3_entry_def Let_def nth_chk_def bind_def)

lemma pattern4_entry_ok: "length g = 4 \<Longrightarrow> \<exists>es. pattern4_entry g = Inr es"
  by (auto simp: pattern4_entry_def Let_def nth_chk_def bind_def)

lemma pattern5_entry_ok: "length g = 2 \<Longrightarrow> \<exists>es. pattern5_entry g = Inr es"
  by (auto simp: pattern5_entry_def Let_def nth_chk_def bind_def)

lemma line_entry_ok: "\<exists>es. line_entry raw = Inr es"
proof -
  have 3: "\<And>g. search pattern3 (strip raw) = Some g \<Longrightarrow> \<exists>es. pattern3_entry g = Inr es"
    using search_caps [of pattern3] by (intro pattern3_entry_ok) (simp add: pattern3_def)
  have 4: "\<And>g. search pattern4 (strip raw) = Some g \<Longrightarrow> \<exists>es. pattern4_entry g = Inr es"
    using search_caps [of pattern4] by (intro pattern4_entry_ok) (simp add: pattern4_def)
  have 5: "\<And>g. search pattern5 (strip raw) = Some g \<Longrightarrow> \<exists>es. pattern5_entry g = Inr es"
    using search_caps [of pattern5] by (intro pattern5_entry_ok) (simp add: pattern5_def)
  show ?thesis
    using 3 4 5 by (auto simp: line_entry_def Let_def split: option.splits)
qed

lemma line_by_line_ok: "\<exists>es. extract_with_line_by_line_processing b = Inr es"
  unfolding extract_with_line_by_line_processing_def
  by (intro for_each_ok line_entry_ok)

section \<open>The control flow of the engine\<close>

lemma extract_experience_locate:
  "extract_experience text =
     (case locate text of
        None \<Rightarrow> extract_experience_from_entire_text text
      | Some best \<Rightarrow>
          if section_text best \<noteq> [] then cascade (section_text best) text else Inr [])"
  by (cases "sort_sections (potential_sections text)")
     (simp_all add: extract_experience_def locate_def cascade_def Let_def nth_chk_def bind_def)

lemma cascade_ok: "\<exists>es. cascade b text = Inr es"
proof -
  obtain e1 where 1: "extract_with_pipe_format b = Inr e1" using pipe_ok by blast
  obtain e2 where 2: "extract_with_date_first_format b = Inr e2" using date_first_ok by blast
  obtain e3 where 3: "extract_with_line_by_line_processing b = Inr e3"
    using line_by_line_ok by blast
  obtain e4 where 4: "extract_experience_from_entire_text text = Inr e4"
    using entire_text_ok by blast
  show ?thesis by (simp add: cascade_def bind_def 1 2 3 4)
qed

lemma extract_experience_ok: "\<exists>es. extract_experience text = Inr es"
  using cascade_ok entire_text_ok
  by (auto simp: extract_experience_locate split: option.splits)

section \<open>The sort of the candidates\<close>

lemma sorted_le_last:
  "sorted (map f xs) \<Longrightarrow> x \<in> set xs \<Longrightarrow> f x \<le> f (last xs)"
proof (induction xs)
  case Nil
  then show ?case by simp
next
  case (Cons y ys)
  show ?case
  proof (cases "ys = []")
    case True
    with Cons.prems show ?thesis by simp
  next
    case False
    then have l: "last ys \<in> set ys" by simp
    from Cons.prems have s: "sorted (map f ys)" and a: "\<forall>z\<in>set ys. f y \<le> f z" by auto
    from Cons.prems(2) consider "x = y" | "x \<in> set ys" by auto
    then show ?thesis
    proof cases
      case 1
      with a l False show ?thesis by simp
    next
      case 2
      with Cons.IH s False show ?thesis by simp
    qed
  qed
qed

lemma sort_sections_set: "set (sort_sections cs) = set cs"
  by (simp add: sort_sections_def)

lemma sort_sections_head:
  assumes "sort_sections cs = best # rest" and "c \<in> set cs"
  shows "sort_key_of c \<le> sort_key_of best"
proof -
  let ?ys = "sort_key sort_key_of (rev cs)"
  from assms(1) have r: "rev ?ys = best # rest" by (simp add: sort_sections_def)
  then have ne: "?ys \<noteq> []" by auto
  from r have "hd (rev ?ys) = best" by simp
  with ne have b: "last ?ys = best" by (simp add: hd_rev)
  have "sorted (map sort_key_of ?ys)" by (rule sorted_sort_key)
  moreover from assms(2) have "c \<in> set ?ys" by simp
  ultimately have "sort_key_of c \<le> sort_key_of (last ?ys)" by (rule sorted_le_last)
  with b show ?thesis by simp
qed

lemma locate_Some:
  "locate text = Some best \<Longrightarrow>
     \<exists>rest. sort_sections (potential_sections text) = best # rest \<and> score best > 0"
  by (auto simp: locate_def split: list.splits if_splits)

section \<open>Keyword counts\<close>

lemma contains_sublist: "contains s sub = sublist sub s"
  by (induction s) (auto simp: sublist_Cons_right)

lemma contains_append: "contains s sub \<Longrightarrow> contains (s @ t) sub"
  by (auto simp: contains_sublist sublist_append)

lemma contains_suffix: "contains (s @ sub) sub"
  by (simp add: contains_sublist sublist_appendI)

lemma lower_append: "lower (s @ t) = lower s @ lower t"
  by (simp add: lower_def)

lemma filter_length_mono:
  "(\<And>x. x \<in> set xs \<Longrightarrow> P x \<Longrightarrow> Q x) \<Longrightarrow> length (filter P xs) \<le> length (filter Q xs)"
  by (induction xs) auto

lemma filter_length_less:
  "(\<And>x. x \<in> set xs \<Longrightarrow> P x \<Longrightarrow> Q x) \<Longrightarrow> k \<in> set xs \<Longrightarrow> Q k \<Longrightarrow> \<not> P k \<Longrightarrow>
     length (filter P xs) < length (filter Q xs)"
proof (induction xs)
  case Nil
  then show ?case by simp
next
  case (Cons y ys)
  have mono: "length (filter P ys) \<le> length (filter Q ys)"
    using Cons.prems(1) by (intro filter_length_mono) auto
  show ?case
  proof (cases "k = y")
    case True
    with Cons.prems mono show ?thesis by auto
  next
    case False
    with Cons.prems have "k \<in> set ys" by simp
    with Cons have "length (filter P ys) < length (filter Q ys)" by auto
    with Cons.prems(1) show ?thesis by auto
  qed
qed

lemma keyword_count_mono: "keyword_count kws b \<le> keyword_count kws (b @ x)"
  unfolding keyword_count_def
  by (rule filter_length_mono) (simp add: lower_append contains_append)

lemma keyword_count_new:
  assumes "k \<in> set kws" and "lower x = k" and "\<not> contains (lower b) k"
  shows "keyword_count kws b < keyword_count kws (b @ x)"
  unfolding keyword_count_def
proof (rule filter_length_less [where k = k])
  show "k \<in> set kws" by (rule assms(1))
  show "contains (lower (b @ x)) k" using assms(2) by (simp add: lower_append contains_suffix)
  show "\<not> contains (lower b) k" by (rule assms(3))
  show "\<And>y. y \<in> set kws \<Longrightarrow> contains (lower b) y \<Longrightarrow> contains (lower (b @ x)) y"
    by (simp add: lower_append contains_append)
qed

lemma keyword_count_le: "keyword_count kws b \<le> length kws"
  by (simp add: keyword_count_def)

lemma section_score_eq:
  "section_score hdr t =
     (if hdr = ''PROFESSIONAL EXPERIENCE'' then 10 else 0) + (if length t > 100 then 5 else 0) +
     2 * int (job_keyword_count t) - 3 * int (summary_keyword_count t) -
     (if length t < 50 then 5 else 0)"
  by (simp add: section_score_def Let_def)

section \<open>The boundary of a block\<close>

lemma str_find_None: "str_find s sub = None \<longleftrightarrow> \<not> contains s sub"
  by (induction s) auto

lemma str_find_Some:
  "str_find s sub = Some i \<Longrightarrow>
     prefix sub (drop i s) \<and> (\<forall>j<i. \<not> prefix sub (drop j s))"
proof (induction s arbitrary: i)
  case Nil
  then show ?case by (auto split: if_splits)
next
  case (Cons c cs)
  show ?case
  proof (cases "prefix sub (c # cs)")
    case True
    with Cons.prems show ?thesis by simp
  next
    case False
    with Cons.prems obtain i' where i: "i = Suc i'" and f: "str_find cs sub = Some i'" by auto
    from Cons.IH [OF f] have p: "prefix sub (drop i' cs)"
      and n: "\<forall>j<i'. \<not> prefix sub (drop j cs)" by auto
    have "\<not> prefix sub (drop j (c # cs))" if "j < i" for j
    proof (cases j)
      case 0
      with False show ?thesis by simp
    next
      case (Suc j')
      with that i n show ?thesis by simp
    qed
    with p i show ?thesis by simp
  qed
qed

lemma next_section_loop_None:
  "next_section_loop a ms acc = None \<longleftrightarrow>
     acc = None \<and> (\<forall>m\<in>set ms. str_find a m = None)"
  by (induction a ms acc rule: next_section_loop.induct) (auto split: option.splits)

lemma next_section_loop_Some:
  "next_section_loop a ms acc = Some n \<Longrightarrow>
     (acc = Some n \<or> (\<exists>m\<in>set ms. str_find a m = Some n)) \<and>
     (\<forall>k. acc = Some k \<longrightarrow> n \<le> k) \<and>
     (\<forall>m\<in>set ms. \<forall>k. str_find a m = Some k \<longrightarrow> n \<le> k)"
proof (induction a ms acc rule: next_section_loop.induct)
  case (1 a acc)
  then show ?case by simp
next
  case (2 a m rest acc)
  show ?case
  proof (cases "str_find a m")
    case None
    with "2.prems" have "next_section_loop a rest acc = Some n" by simp
    from "2.IH"(1) [OF None this] None show ?thesis by simp
  next
    case (Some p)
    note found = Some
    show ?thesis
    proof (cases acc)
      case None
      with "2.prems" found have "next_section_loop a rest (Some p) = Some n" by simp
      from "2.IH"(2) [OF found None this] found None show ?thesis by auto
    next
      case (Some k)
      show ?thesis
      proof (cases "p < k")
        case True
        with "2.prems" found Some have "next_section_loop a rest (Some p) = Some n" by simp
        from "2.IH"(3) [OF found Some True this] found Some True show ?thesis by auto
      next
        case False
        with "2.prems" found Some have "next_section_loop a rest acc = Some n" by simp
        from "2.IH"(4) [OF found Some False this] found Some False show ?thesis by auto
      qed
    qed
  qed
qed


lemma next_section_pos_None:
  "next_section_pos a = None \<longleftrightarrow> (\<forall>m\<in>set next_sections. \<not> contains a m)"
  by (simp add: next_section_pos_def next_section_loop_None str_find_None)

lemma next_section_pos_Some:
  assumes "next_section_pos a = Some n"
  shows "(\<exists>m\<in>set next_sections. prefix m (drop n a)) \<and>
         (\<forall>j<n. \<forall>m\<in>set next_sections. \<not> prefix m (drop j a))"
proof -
  from assms have l: "next_section_loop a next_sections None = Some n"
    by (simp add: next_section_pos_def)
  from next_section_loop_Some [OF l]
  obtain m where m: "m \<in> set next_sections" and f: "str_find a m = Some n"
    and least: "\<forall>m\<in>set next_sections. \<forall>k. str_find a m = Some k \<longrightarrow> n \<le> k"
    by auto
  from f have "prefix m (drop n a)" using str_find_Some by blast
  with m have 1: "\<exists>m\<in>set next_sections. prefix m (drop n a)" by blast
  have 2: "\<not> prefix m' (drop j a)" if j: "j < n" and m': "m' \<in> set next_sections" for j m'
  proof
    assume p: "prefix m' (drop j a)"
    show False
    proof (cases "str_find a m'")
      case None
      then have "\<not> contains a m'" by (simp add: str_find_None)
      moreover from p have "contains a m'"
        by (metis append_take_drop_id contains_sublist prefix_def sublist_appendI)
      ultimately show False by simp
    next
      case (Some k)
      with least m' have "n \<le> k" by blast
      with j have "j < k" by simp
      with Some p show False using str_find_Some by blast
    qed
  qed
  from 1 2 show ?thesis by blast
qed

lemma dropWhile_keeps_sublist:
  "sublist h s \<Longrightarrow> h \<noteq> [] \<Longrightarrow> \<not> P (hd h) \<Longrightarrow> sublist h (dropWhile P s)"
proof (induction s)
  case Nil
  then show ?case by simp
next
  case (Cons c cs)
  show ?case
  proof (cases "P c")
    case True
    from Cons.prems(1) have "prefix h (c # cs) \<or> sublist h cs"
      by (simp add: sublist_Cons_right)
    moreover have "\<not> prefix h (c # cs)"
    proof
      assume "prefix h (c # cs)"
      with Cons.prems(2) have "hd h = c" by (cases h) auto
      with True Cons.prems(3) show False by simp
    qed
    ultimately have "sublist h cs" by simp
    with Cons True show ?thesis by simp
  next
    case False
    with Cons.prems(1) show ?thesis by simp
  qed
qed

lemma strip_keeps:
  assumes "contains s h" and "h \<noteq> []" and "\<not> is_space (hd h)" and "\<not> is_space (last h)"
  shows "contains (strip s) h"
proof -
  from assms have "sublist h (dropWhile is_space s)"
    by (simp add: contains_sublist dropWhile_keeps_sublist)
  then have "sublist (rev h) (rev (dropWhile is_space s))" by simp
  moreover from assms(2,4) have "rev h \<noteq> []" and "\<not> is_space (hd (rev h))"
    by (simp_all add: hd_rev)
  ultimately have "sublist (rev h) (dropWhile is_space (rev (dropWhile is_space s)))"
    by (rule dropWhile_keeps_sublist)
  then have "sublist (rev (rev h)) (rev (dropWhile is_space (rev (dropWhile is_space s))))"
    by (simp only: sublist_rev)
  then show ?thesis by (simp add: contains_sublist strip_def)
qed

lemma upper_heading_ends:
  "h \<in> set upper_headings \<Longrightarrow> h \<noteq> [] \<and> \<not> is_space (hd h) \<and> \<not> is_space (last h)"
  by (auto simp: upper_headings_def is_space_def code_def)

lemma upper_heading_no_marker:
  "h \<in> set upper_headings \<Longrightarrow> m \<in> set next_sections \<Longrightarrow> prefix m x \<Longrightarrow> \<not> prefix h x"
proof
  assume h: "h \<in> set upper_headings" and m: "m \<in> set next_sections"
    and pm: "prefix m x" and ph: "prefix h x"
  from pm ph have "prefix m h \<or> prefix h m" by (rule prefix_same_cases)
  with h m show False by (auto simp: upper_headings_def next_sections_def)
qed

section \<open>What a match captures\<close>

lemma rmatch_suffix: "t \<in> set (rmatch r s) \<Longrightarrow> \<exists>m. s = m @ t"
proof (induction r s arbitrary: t rule: rmatch.induct)
  case (1 k s)
  then show ?case by (cases s) (auto split: if_splits)
next
  case (2 w s)
  then show ?case by (auto simp: prefix_def split: if_splits)
next
  case (3 a b s)
  from "3.prems" obtain u where u: "u \<in> set (rmatch a s)" and t: "t \<in> set (rmatch b u)"
    by auto
  from "3.IH"(1) [OF u] obtain m1 where "s = m1 @ u" by blast
  moreover from "3.IH"(2) [OF u t] obtain m2 where "u = m2 @ t" by blast
  ultimately have "s = (m1 @ m2) @ t" by simp
  then show ?case by blast
next
  case (4 a b s)
  then show ?case by auto
next
  case (5 r s)
  from "5.prems" have
    "t \<in> set (concat (map (rmatch (Star r)) (filter (\<lambda>t. length t < length s) (rmatch r s))) @ [s])"
    by (simp only: rmatch.simps(5))
  then consider "t = s"
    | u where "u \<in> set (rmatch r s)" "length u < length s" "t \<in> set (rmatch (Star r) u)"
    by auto
  then show ?case
  proof cases
    case 1
    then show ?thesis by simp
  next
    case 2
    from "5.IH"(1) [OF 2(1)] obtain m1 where "s = m1 @ u" by blast
    moreover from 2(1,2) have "u \<in> set (filter (\<lambda>t. length t < length s) (rmatch r s))"
      by simp
    from "5.IH"(2) [OF this 2(3)] obtain m2 where "u = m2 @ t" by blast
    ultimately have "s = (m1 @ m2) @ t" by simp
    then show ?thesis by blast
  qed
qed

lemma pmatch_append: "pmatch (p @ q) cfgs = pmatch q (pmatch p cfgs)"
  by (induction p arbitrary: cfgs) auto

lemma pmatch_last_cap:
  assumes "(caps, t) \<in> set (pmatch (p @ [Cap r]) cfgs)"
  shows "\<exists>caps0 s0. t \<in> set (rmatch r s0) \<and> caps = caps0 @ [take (length s0 - length t) s0]"
proof -
  from assms have "(caps, t) \<in> set (concat (map (step (Cap r)) (pmatch p cfgs)))"
    by (simp add: pmatch_append)
  then obtain cfg where "(caps, t) \<in> set (step (Cap r) cfg)" by auto
  then show ?thesis by (cases cfg) auto
qed

lemma findall_from_pmatch:
  "m \<in> set (findall p s) \<Longrightarrow> \<exists>s0 t. (m, t) \<in> set (pmatch p [([], s0)])"
proof (induction p s rule: findall.induct)
  case (1 p)
  then obtain x where "match_here p [] = Some x" and "m = fst x"
    by (cases "match_here p []") auto
  then have "(m, snd x) \<in> set (pmatch p [([], [])])"
    by (auto simp: match_here_def split: list.splits)
  then show ?case by blast
next
  case (2 p c cs)
  show ?case
  proof (cases "match_here p (c # cs)")
    case None
    with 2 show ?thesis by simp
  next
    case (Some x)
    then have here: "(fst x, snd x) \<in> set (pmatch p [([], c # cs)])"
      by (auto simp: match_here_def split: list.splits)
    from "2.prems" Some consider "m = fst x"
      | "length (snd x) < length (c # cs)" "m \<in> set (findall p (snd x))"
      | "\<not> length (snd x) < length (c # cs)" "m \<in> set (findall p cs)"
      by (auto split: if_splits)
    then show ?thesis
    proof cases
      case 1
      with here show ?thesis by blast
    next
      case 2
      with "2.IH"(2) [OF Some] show ?thesis by blast
    next
      case 3
      with "2.IH"(3) [OF Some] show ?thesis by blast
    qed
  qed
qed

lemma findall_last_cap:
  assumes "m \<in> set (findall (p @ [Cap r]) s)"
  shows "\<exists>caps0 s0 t. t \<in> set (rmatch r s0) \<and> m = caps0 @ [take (length s0 - length t) s0]"
  using findall_from_pmatch [OF assms] pmatch_last_cap by blast

lemma taken_prefix: "s = m @ t \<Longrightarrow> take (length s - length t) s = m"
  by simp

lemma end_group_shape:
  assumes "t \<in> set (rmatch (Alt month_20XX (Lit ''Current'')) s)"
  shows "take (length s - length t) s = ''Current'' \<or>
         (\<exists>w. take (length s - length t) s = w @ ''20XX'')"
proof -
  from assms consider "t \<in> set (rmatch month_20XX s)" | "t \<in> set (rmatch (Lit ''Current'') s)"
    by auto
  then show ?thesis
  proof cases
    case 1
    then obtain u where u: "u \<in> set (rmatch (Plus (Sym Alpha)) s)"
      and t: "t \<in> set (rmatch (Seq (Plus sp) (Lit ''20XX'')) u)"
      by (auto simp: month_20XX_def)
    from t obtain v where v: "v \<in> set (rmatch (Plus sp) u)"
      and l: "t \<in> set (rmatch (Lit ''20XX'') v)" by auto
    from l have "v = ''20XX'' @ t" by (auto simp: prefix_def split: if_splits)
    moreover from rmatch_suffix [OF v] obtain m2 where "u = m2 @ v" by blast
    moreover from rmatch_suffix [OF u] obtain m1 where "s = m1 @ u" by blast
    ultimately have "s = (m1 @ m2 @ ''20XX'') @ t" by simp
    then have "take (length s - length t) s = (m1 @ m2) @ ''20XX''"
      using taken_prefix [of s "m1 @ m2 @ ''20XX''" t] by simp
    then show ?thesis by blast
  next
    case 2
    then have "s = ''Current'' @ t" by (auto simp: prefix_def split: if_splits)
    then have "take (length s - length t) s = ''Current''" by (rule taken_prefix)
    then show ?thesis by simp
  qed
qed

lemma strip_ends_20XX: "\<exists>u. strip (w @ ''20XX'') = u @ ''20XX''"
proof -
  have ns: "\<not> is_space CHR ''2''" "\<not> is_space CHR ''X''" "\<not> is_space CHR ''0''"
    by (simp_all add: is_space_def code_def)
  have "dropWhile is_space (w @ ''20XX'') =
      (if \<forall>x\<in>set w. is_space x then ''20XX'' else dropWhile is_space w @ ''20XX'')"
    using ns by (simp add: dropWhile_append)
  then obtain u where u: "dropWhile is_space (w @ ''20XX'') = u @ ''20XX''"
    by (metis append_Nil)
  have "rev (u @ ''20XX'') = ''XX02'' @ rev u" by simp
  then have "dropWhile is_space (rev (u @ ''20XX'')) = ''XX02'' @ rev u"
    using ns by simp
  then have "strip (w @ ''20XX'') = u @ ''20XX''" by (simp add: strip_def u)
  then show ?thesis by blast
qed

lemma strip_Current: "strip ''Current'' = ''Current''"
  by (simp add: strip_def is_space_def code_def)

lemma end_group_not_Present:
  assumes "t \<in> set (rmatch (Alt month_20XX (Lit ''Current'')) s)"
  shows "strip (take (length s - length t) s) \<noteq> ''Present''"
proof -
  from end_group_shape [OF assms] show ?thesis
  proof
    assume "take (length s - length t) s = ''Current''"
    then show ?thesis by (simp add: strip_Current)
  next
    assume "\<exists>w. take (length s - length t) s = w @ ''20XX''"
    then obtain w where "take (length s - length t) s = w @ ''20XX''" by blast
    moreover obtain u where "strip (w @ ''20XX'') = u @ ''20XX''"
      using strip_ends_20XX by blast
    ultimately have "last (strip (take (length s - length t) s)) = CHR ''X''" by simp
    then show ?thesis by auto
  qed
qed

section \<open>The engine on the sample inputs\<close>

subsection \<open>Scenario A\<close>

lemma sections_A:
  "potential_sections scenario_A =
     [\<lparr>header = ''PROFESSIONAL EXPERIENCE'', position = 0, section_text = block_A, score = 12\<rparr>,
      \<lparr>header = ''EXPERIENCE'', position = 13, section_text = block_A, score = 2\<rparr>]"
  by code_simp

lemma sorted_A:
  "sort_sections (potential_sections scenario_A) =
     [\<lparr>header = ''PROFESSIONAL EXPERIENCE'', position = 0, section_text = block_A, score = 12\<rparr>,
      \<lparr>header = ''EXPERIENCE'', position = 13, section_text = block_A, score = 2\<rparr>]"
  unfolding sections_A by (simp add: sort_sections_def sort_key_of_def)

lemma pipe_A: "extract_with_pipe_format block_A = Inr [entry_A]"
  by code_simp

lemma block_A_not_empty: "block_A \<noteq> []"
  by (simp add: block_A_def)

lemma run_A: "extract_experience scenario_A = Inr [entry_A]"
  unfolding extract_experience_def sorted_A
  by (simp add: Let_def nth_chk_def bind_def pipe_A block_A_not_empty)

lemma locate_A:
  "locate scenario_A =
     Some \<lparr>header = ''PROFESSIONAL EXPERIENCE'', position = 0, section_text = block_A,
            score = 12\<rparr>"
  by (simp add: locate_def sorted_A)

subsection \<open>Scenario B\<close>

lemma sections_B:
  "potential_sections scenario_B =
     [\<lparr>header = ''EXPERIENCE'', position = 0, section_text = block_B, score = 2\<rparr>]"
  by code_simp

lemma locate_B:
  "locate scenario_B =
     Some \<lparr>header = ''EXPERIENCE'', position = 0, section_text = block_B, score = 2\<rparr>"
  by (simp add: locate_def sections_B sort_sections_def)

lemma pipe_B: "extract_with_pipe_format block_B = Inr []"
  by code_simp

lemma date_first_B: "extract_with_date_first_format block_B = Inr []"
  by code_simp

lemma line_by_line_B: "extract_with_line_by_line_processing block_B = Inr [entry_B]"
  by code_simp

lemma block_B_not_empty: "block_B \<noteq> []"
  by (simp add: block_B_def)

lemma run_B: "extract_experience scenario_B = Inr [entry_B]"
  by (simp add: extract_experience_locate locate_B cascade_def bind_def block_B_not_empty
      pipe_B date_first_B line_by_line_B)

subsection \<open>Scenario C\<close>

lemma sections_C:
  "potential_sections scenario_C =
     [\<lparr>header = ''EXPERIENCE'', position = 67, section_text = ''in backend development.'',
        score = - 5\<rparr>]"
  by code_simp

lemma locate_C: "locate scenario_C = None"
  by (simp add: locate_def sections_C sort_sections_def)

lemma entire_text_C: "extract_experience_from_entire_text scenario_C = Inr []"
  by code_simp

lemma run_C: "extract_experience scenario_C = Inr []"
  by (simp add: extract_experience_locate locate_C entire_text_C)

subsection \<open>A block the date-first strategy reads\<close>

lemma sections_D:
  "potential_sections text_D =
     [\<lparr>header = ''PROFESSIONAL EXPERIENCE'', position = 0, section_text = block_D, score = 7\<rparr>,
      \<lparr>header = ''EXPERIENCE'', position = 13, section_text = block_D, score = - 3\<rparr>]"
  by code_simp

lemma locate_D:
  "locate text_D =
     Some \<lparr>header = ''PROFESSIONAL EXPERIENCE'', position = 0, section_text = block_D,
            score = 7\<rparr>"
  by (simp add: locate_def sections_D sort_sections_def sort_key_of_def)

lemma pipe_D: "extract_with_pipe_format block_D = Inr []"
  by code_simp

lemma date_first_D: "extract_with_date_first_format block_D = Inr [entry_D]"
  by code_simp

lemma block_D_not_empty: "block_D \<noteq> []"
  by (simp add: block_D_def)

subsection \<open>A block no strategy reads\<close>

lemma sections_F:
  "potential_sections text_F =
     [\<lparr>header = ''EXPERIENCE'', position = 27, section_text = block_F, score = 1\<rparr>]"
  by code_simp

lemma locate_F:
  "locate text_F =
     Some \<lparr>header = ''EXPERIENCE'', position = 27, section_text = block_F, score = 1\<rparr>"
  by (simp add: locate_def sections_F sort_sections_def)

lemma pipe_F: "extract_with_pipe_format block_F = Inr []"
  by code_simp

lemma date_first_F: "extract_with_date_first_format block_F = Inr []"
  by code_simp

lemma line_by_line_F: "extract_with_line_by_line_processing block_F = Inr []"
  by code_simp

lemma entire_text_F: "extract_experience_from_entire_text text_F = Inr [entry_F]"
  by code_simp

lemma block_F_not_empty: "block_F \<noteq> []"
  by (simp add: block_F_def)

subsection \<open>Empty blocks\<close>

lemma strategies_empty:
  "extract_with_pipe_format [] = Inr []"
  "extract_with_date_first_format [] = Inr []"
  "extract_with_line_by_line_processing [] = Inr []"
  by code_simp+

lemma sections_E:
  "potential_sections text_E =
     [\<lparr>header = ''PROFESSIONAL EXPERIENCE'', position = 27, section_text = [], score = 5\<rparr>,
      \<lparr>header = ''EXPERIENCE'', position = 40, section_text = [], score = - 5\<rparr>]"
  by code_simp

lemma locate_E:
  "locate text_E =
     Some \<lparr>header = ''PROFESSIONAL EXPERIENCE'', position = 27, section_text = [], score = 5\<rparr>"
  by (simp add: locate_def sections_E sort_sections_def sort_key_of_def)

lemma entire_text_E: "extract_experience_from_entire_text text_E = Inr [entry_F]"
  by code_simp

lemma sections_G:
  "potential_sections text_G =
     [\<lparr>header = ''PROFESSIONAL EXPERIENCE'', position = 0, section_text = [], score = 5\<rparr>,
      \<lparr>header = ''EXPERIENCE'', position = 13, section_text = [], score = - 5\<rparr>]"
  by code_simp

lemma locate_G:
  "locate text_G =
     Some \<lparr>header = ''PROFESSIONAL EXPERIENCE'', position = 0, section_text = [], score = 5\<rparr>"
  by (simp add: locate_def sections_G sort_sections_def sort_key_of_def)

lemma entire_text_G: "extract_experience_from_entire_text text_G = Inr [entry_G]"
  by code_simp

lemma run_E: "extract_experience text_E = Inr []"
  by (simp add: extract_experience_locate locate_E)

lemma run_G: "extract_experience text_G = Inr []"
  by (simp add: extract_experience_locate locate_G)

subsection \<open>Two candidates with the same score\<close>

lemma sections_T:
  "potential_sections text_T =
     [first_T, best_T,
      \<lparr>header = ''EXPERIENCE'', position = 13, section_text = section_text first_T,
        score = - 5\<rparr>,
      \<lparr>header = ''EXPERIENCE'', position = 50, section_text = block_T, score = - 5\<rparr>]"
  by code_simp

lemma sorted_T: "sort_sections (potential_sections text_T) = best_T # rest_T"
  by (simp add: sections_T sort_sections_def sort_key_of_def first_T_def best_T_def rest_T_def)

lemma pipe_T: "extract_with_pipe_format block_T = Inr [entry_T]"
  by code_simp

section \<open>Scenario A\<close>

text \<open>
  C1 (as the code has it). On scenario A the best section is the one after
  \<^verbatim>\<open>PROFESSIONAL EXPERIENCE\<close>, with score 12; the pipe-format strategy yields one entry on
  its block and \<^verbatim>\<open>extract_experience\<close> returns it. The text before the bar is the title,
  the company is empty, the text between the bar and the parenthesis is the start date,
  the end date is empty, and the parenthesised text is the location.
\<close>

theorem scenario_A_pipe_format:
  "map section_text (sort_sections (potential_sections scenario_A)) ! 0 = block_A \<and>
   extract_with_pipe_format block_A =
     Inr [\<lparr>title = ''Software Engineer'', company = [], start_date = ''TechCorp'',
            end_date = [], location = ''Jan 2020 - Present'', description = []\<rparr>] \<and>
   extract_experience scenario_A =
     Inr [\<lparr>title = ''Software Engineer'', company = [], start_date = ''TechCorp'',
            end_date = [], location = ''Jan 2020 - Present'', description = []\<rparr>]"
  using sorted_A pipe_A run_A by (simp add: entry_A_def)

text \<open>
  C1 as the specification states it does not hold: the entry returned on scenario A is
  not the one with company \<^verbatim>\<open>TechCorp\<close>, start date \<^verbatim>\<open>Jan 2020\<close>, end date \<^verbatim>\<open>Present\<close>
  and an empty location.
\<close>

theorem scenario_A_spec_entry_refuted:
  "extract_experience scenario_A \<noteq>
     Inr [\<lparr>title = ''Software Engineer'', company = ''TechCorp'', start_date = ''Jan 2020'',
            end_date = ''Present'', location = [], description = []\<rparr>]"
  using run_A by (simp add: entry_A_def)

section \<open>No exception on any input\<close>

lemma run_empty: "extract_experience [] = Inr []"
  by code_simp

text \<open>
  C2. On every text \<^verbatim>\<open>extract_experience\<close> returns a list of entries: none of its index
  reads and unpackings raises, its loops end (the functions above are total), and a
  pattern that does not match only adds no entry. So does each strategy on every block.
  On the empty text the result is the empty list.
\<close>

theorem extract_experience_never_raises:
  "(\<exists>es. extract_experience text = Inr es) \<and>
   (\<exists>es. extract_with_pipe_format b = Inr es) \<and>
   (\<exists>es. extract_with_date_first_format b = Inr es) \<and>
   (\<exists>es. extract_with_line_by_line_processing b = Inr es) \<and>
   (\<exists>es. extract_experience_from_entire_text text = Inr es) \<and>
   extract_experience [] = Inr []"
  using extract_experience_ok pipe_ok date_first_ok line_by_line_ok entire_text_ok run_empty
  by blast

section \<open>When the whole-text search is the result\<close>

text \<open>
  C3 (as the code has it). When no usable section is located, \<^verbatim>\<open>extract_experience\<close>
  returns what the whole-text search returns on the full text. When a section is
  located, its block is not empty, and the pipe-format, date-first and line-by-line
  strategies each return the empty list on that block, it returns the whole-text search
  on the full text as well. When the located block is the empty string it returns the
  empty list. A located section is the head of the sorted candidates, with a positive
  score.
\<close>

theorem whole_text_fallback:
  "(locate text = None \<longrightarrow>
      extract_experience text = extract_experience_from_entire_text text) \<and>
   (locate text = Some best \<and> section_text best \<noteq> [] \<and>
    extract_with_pipe_format (section_text best) = Inr [] \<and>
    extract_with_date_first_format (section_text best) = Inr [] \<and>
    extract_with_line_by_line_processing (section_text best) = Inr [] \<longrightarrow>
      extract_experience text = extract_experience_from_entire_text text) \<and>
   (locate text = Some best \<and> section_text best = [] \<longrightarrow> extract_experience text = Inr []) \<and>
   (locate text = Some best \<longrightarrow>
      score best > 0 \<and> best = hd (sort_sections (potential_sections text)))"
proof -
  have none: "locate text = None \<longrightarrow>
      extract_experience text = extract_experience_from_entire_text text"
    by (simp add: extract_experience_locate)
  have empty: "locate text = Some best \<and> section_text best = [] \<longrightarrow>
      extract_experience text = Inr []"
    by (simp add: extract_experience_locate)
  have falls: "locate text = Some best \<and> section_text best \<noteq> [] \<and>
    extract_with_pipe_format (section_text best) = Inr [] \<and>
    extract_with_date_first_format (section_text best) = Inr [] \<and>
    extract_with_line_by_line_processing (section_text best) = Inr [] \<longrightarrow>
      extract_experience text = extract_experience_from_entire_text text"
    by (simp add: extract_experience_locate cascade_def bind_def)
  have head: "locate text = Some best \<longrightarrow>
      score best > 0 \<and> best = hd (sort_sections (potential_sections text))"
    by (auto simp: locate_def split: list.splits if_splits)
  from none falls empty head show ?thesis by blast
qed

theorem whole_text_fallback_witness:
  "locate scenario_C = None \<and>
   extract_experience scenario_C = extract_experience_from_entire_text scenario_C \<and>
   locate text_F =
     Some \<lparr>header = ''EXPERIENCE'', position = 27, section_text = block_F, score = 1\<rparr> \<and>
   block_F \<noteq> [] \<and>
   extract_with_pipe_format block_F = Inr [] \<and>
   extract_with_date_first_format block_F = Inr [] \<and>
   extract_with_line_by_line_processing block_F = Inr [] \<and>
   extract_experience text_F = extract_experience_from_entire_text text_F \<and>
   extract_experience text_F = Inr [entry_F] \<and>
   locate text_E =
     Some \<lparr>header = ''PROFESSIONAL EXPERIENCE'', position = 27, section_text = [], score = 5\<rparr> \<and>
   extract_experience text_E = Inr []"
  using whole_text_fallback [of scenario_C]
    whole_text_fallback [of text_F
      "\<lparr>header = ''EXPERIENCE'', position = 27, section_text = block_F, score = 1\<rparr>"]
    whole_text_fallback [of text_E
      "\<lparr>header = ''PROFESSIONAL EXPERIENCE'', position = 27, section_text = [], score = 5\<rparr>"]
  by (simp add: locate_C locate_F locate_E block_F_not_empty pipe_F date_first_F
      line_by_line_F entire_text_F)

text \<open>
  C3 as the specification states it does not hold. On the text
  \<^verbatim>\<open>Software Engineer - Google\<close>, newline, \<^verbatim>\<open>PROFESSIONAL EXPERIENCE\<close> the section located
  has score 5 and an empty block, on which the three block strategies return the empty
  list; the whole-text search finds an entry in the full text, and \<^verbatim>\<open>extract_experience\<close>
  returns the empty list.
\<close>

theorem whole_text_fallback_skipped_on_empty_block:
  "locate text_E =
     Some \<lparr>header = ''PROFESSIONAL EXPERIENCE'', position = 27, section_text = [], score = 5\<rparr> \<and>
   extract_with_pipe_format [] = Inr [] \<and>
   extract_with_date_first_format [] = Inr [] \<and>
   extract_with_line_by_line_processing [] = Inr [] \<and>
   extract_experience_from_entire_text text_E =
     Inr [\<lparr>title = ''Software Engineer'', company = ''Google'', start_date = [],
            end_date = [], location = [], description = []\<rparr>] \<and>
   extract_experience text_E = Inr [] \<and>
   extract_experience text_E \<noteq> extract_experience_from_entire_text text_E"
  by (simp add: locate_E strategies_empty entire_text_E run_E entry_F_def)

section \<open>Keywords and the score\<close>

lemma counts_W:
  "\<not> contains (lower block_W) ''engineer''"
  "\<not> contains (lower block_W) ''summary''"
  "lower ''Engineer'' = ''engineer''"
  "lower ''Summary'' = ''summary''"
  "job_keyword_count (block_W @ ''Summary'') = job_keyword_count block_W"
  "summary_keyword_count (block_W @ ''Engineer'') = summary_keyword_count block_W"
  by code_simp+

lemma counts_S:
  "\<not> contains (lower block_S) ''engineer''"
  "\<not> contains (lower block_S) ''summary''"
  "lower ''engineer'' = ''engineer''"
  "lower ''summary'' = ''summary''"
  "job_keyword_count (block_S @ ''summary'') = job_keyword_count block_S"
  "summary_keyword_count (block_S @ ''engineer'') = summary_keyword_count block_S"
  by code_simp+

lemma lengths_W:
  "(length block_W < 50) = (length (block_W @ ''Summary'') < 50)"
  "(100 < length block_W) = (100 < length (block_W @ ''Summary''))"
  "length block_W = 50"
  "length (block_W @ ''Engineer'') = 58"
  "length (block_W @ ''Summary'') = 57"
  by (simp_all add: block_W_def)

lemma lengths_S:
  "(length block_S < 50) = (length (block_S @ ''summary'') < 50)"
  "(100 < length block_S) = (100 < length (block_S @ ''summary''))"
  "length block_S = 6"
  "length (block_S @ ''engineer'') = 14"
  "length (block_S @ ''summary'') = 13"
  by (simp_all add: block_S_def)

lemma scores_W:
  "section_score ''EXPERIENCE'' block_W = 0"
  "section_score ''EXPERIENCE'' (block_W @ ''Engineer'') = 2"
  "section_score ''EXPERIENCE'' (block_W @ ''Summary'') = - 3"
  by code_simp+

lemma scores_S:
  "section_score ''EXPERIENCE'' block_S = - 5"
  "section_score ''EXPERIENCE'' (block_S @ ''engineer'') = - 3"
  "section_score ''EXPERIENCE'' (block_S @ ''summary'') = - 8"
  by code_simp+

lemma scores_V:
  "section_score ''EXPERIENCE'' ''Senior engineer'' = - 3"
  "section_score ''EXPERIENCE'' (''Senior engineer'' @ ''engineer'') = - 3"
  "section_score ''EXPERIENCE'' block_V = - 5"
  "section_score ''EXPERIENCE'' (block_V @ ''summary'') = - 3"
  "length block_V = 46"
  by code_simp+

text \<open>
  C4 (as the code has it). The score is the sum of the header bonus, the two length
  terms, twice the number of job keywords that occur in the lower-cased block and minus
  three times the number of summary keywords that occur in it; a keyword counts once,
  however often it occurs. Appending text never lowers either number (at most 7 and 5),
  and appending a keyword that did not occur yet raises its number. When the block
  stays on the same side of the lengths 50 and 100 (under 50 before and after, or from
  50 to 100 before and after, or over 100 before and after), the score moves by exactly
  twice the change of the first number minus three times the change of the second.
  Appending a job keyword that is new raises the score by 2 at least when the number
  of summary keywords does not move, whatever the lengths; appending a summary keyword
  that is new lowers it by 3 at least when the block stays on the same side of 50 and
  100 and the number of job keywords does not move.
\<close>

theorem keyword_terms_of_score:
  "section_score hdr b =
     (if hdr = ''PROFESSIONAL EXPERIENCE'' then 10 else 0) + (if length b > 100 then 5 else 0) +
     2 * int (job_keyword_count b) - 3 * int (summary_keyword_count b) -
     (if length b < 50 then 5 else 0) \<and>
   job_keyword_count b \<le> job_keyword_count (b @ x) \<and> job_keyword_count b \<le> 7 \<and>
   summary_keyword_count b \<le> summary_keyword_count (b @ x) \<and> summary_keyword_count b \<le> 5 \<and>
   (k \<in> set job_keywords \<and> lower x = k \<and> \<not> contains (lower b) k \<longrightarrow>
      job_keyword_count b < job_keyword_count (b @ x)) \<and>
   (k \<in> set summary_keywords \<and> lower x = k \<and> \<not> contains (lower b) k \<longrightarrow>
      summary_keyword_count b < summary_keyword_count (b @ x)) \<and>
   ((length b < 50) = (length (b @ x) < 50) \<and> (100 < length b) = (100 < length (b @ x)) \<longrightarrow>
      section_score hdr (b @ x) - section_score hdr b =
        2 * (int (job_keyword_count (b @ x)) - int (job_keyword_count b)) -
        3 * (int (summary_keyword_count (b @ x)) - int (summary_keyword_count b))) \<and>
   (k \<in> set job_keywords \<and> lower x = k \<and> \<not> contains (lower b) k \<and>
    summary_keyword_count (b @ x) = summary_keyword_count b \<longrightarrow>
      section_score hdr b + 2 \<le> section_score hdr (b @ x)) \<and>
   (k \<in> set summary_keywords \<and> lower x = k \<and> \<not> contains (lower b) k \<and>
    (length b < 50) = (length (b @ x) < 50) \<and> (100 < length b) = (100 < length (b @ x)) \<and>
    job_keyword_count (b @ x) = job_keyword_count b \<longrightarrow>
      section_score hdr (b @ x) \<le> section_score hdr b - 3)"
proof -
  have jm: "job_keyword_count b \<le> job_keyword_count (b @ x)"
    unfolding job_keyword_count_def by (rule keyword_count_mono)
  have sm: "summary_keyword_count b \<le> summary_keyword_count (b @ x)"
    unfolding summary_keyword_count_def by (rule keyword_count_mono)
  have j7: "job_keyword_count b \<le> 7"
    using keyword_count_le [of job_keywords b]
    by (simp add: job_keyword_count_def job_keywords_def)
  have s5: "summary_keyword_count b \<le> 5"
    using keyword_count_le [of summary_keywords b]
    by (simp add: summary_keyword_count_def summary_keywords_def)
  have jn: "k \<in> set job_keywords \<and> lower x = k \<and> \<not> contains (lower b) k \<longrightarrow>
      job_keyword_count b < job_keyword_count (b @ x)"
    unfolding job_keyword_count_def using keyword_count_new [of k job_keywords x b] by blast
  have sn: "k \<in> set summary_keywords \<and> lower x = k \<and> \<not> contains (lower b) k \<longrightarrow>
      summary_keyword_count b < summary_keyword_count (b @ x)"
    unfolding summary_keyword_count_def
    using keyword_count_new [of k summary_keywords x b] by blast
  have ex: "(length b < 50) = (length (b @ x) < 50) \<and>
      (100 < length b) = (100 < length (b @ x)) \<longrightarrow>
      section_score hdr (b @ x) - section_score hdr b =
        2 * (int (job_keyword_count (b @ x)) - int (job_keyword_count b)) -
        3 * (int (summary_keyword_count (b @ x)) - int (summary_keyword_count b))"
    by (auto simp: section_score_eq)
  have js: "k \<in> set job_keywords \<and> lower x = k \<and> \<not> contains (lower b) k \<and>
    summary_keyword_count (b @ x) = summary_keyword_count b \<longrightarrow>
      section_score hdr b + 2 \<le> section_score hdr (b @ x)"
    using jn by (auto simp: section_score_eq)
  have ss: "k \<in> set summary_keywords \<and> lower x = k \<and> \<not> contains (lower b) k \<and>
    (length b < 50) = (length (b @ x) < 50) \<and> (100 < length b) = (100 < length (b @ x)) \<and>
    job_keyword_count (b @ x) = job_keyword_count b \<longrightarrow>
      section_score hdr (b @ x) \<le> section_score hdr b - 3"
    using sn by (auto simp: section_score_eq)
  from jm sm j7 s5 jn sn ex js ss show ?thesis
    using section_score_eq [of hdr b] by blast
qed

theorem keyword_terms_of_score_witness:
  "''engineer'' \<in> set job_keywords \<and> ''summary'' \<in> set summary_keywords \<and>
   lower ''Engineer'' = ''engineer'' \<and> \<not> contains (lower block_W) ''engineer'' \<and>
   summary_keyword_count (block_W @ ''Engineer'') = summary_keyword_count block_W \<and>
   length block_W = 50 \<and> length (block_W @ ''Engineer'') = 58 \<and>
   section_score ''EXPERIENCE'' block_W + 2 \<le>
     section_score ''EXPERIENCE'' (block_W @ ''Engineer'') \<and>
   lower ''engineer'' = ''engineer'' \<and> \<not> contains (lower block_S) ''engineer'' \<and>
   summary_keyword_count (block_S @ ''engineer'') = summary_keyword_count block_S \<and>
   length block_S = 6 \<and> length (block_S @ ''engineer'') = 14 \<and>
   section_score ''EXPERIENCE'' block_S + 2 \<le>
     section_score ''EXPERIENCE'' (block_S @ ''engineer'') \<and>
   lower ''Summary'' = ''summary'' \<and> \<not> contains (lower block_W) ''summary'' \<and>
   job_keyword_count (block_W @ ''Summary'') = job_keyword_count block_W \<and>
   length (block_W @ ''Summary'') = 57 \<and>
   section_score ''EXPERIENCE'' (block_W @ ''Summary'') \<le>
     section_score ''EXPERIENCE'' block_W - 3 \<and>
   lower ''summary'' = ''summary'' \<and> \<not> contains (lower block_S) ''summary'' \<and>
   job_keyword_count (block_S @ ''summary'') = job_keyword_count block_S \<and>
   length (block_S @ ''summary'') = 13 \<and>
   section_score ''EXPERIENCE'' (block_S @ ''summary'') \<le>
     section_score ''EXPERIENCE'' block_S - 3"
proof -
  have kj: "''engineer'' \<in> set job_keywords"
    by (simp add: job_keywords_def)
  have ks: "''summary'' \<in> set summary_keywords"
    by (simp add: summary_keywords_def)
  have 1: "section_score ''EXPERIENCE'' block_W + 2 \<le>
      section_score ''EXPERIENCE'' (block_W @ ''Engineer'')"
    using keyword_terms_of_score [of "''EXPERIENCE''" block_W "''Engineer''" "''engineer''"]
      kj counts_W(1) counts_W(3) counts_W(6)
    by blast
  have 2: "section_score ''EXPERIENCE'' block_S + 2 \<le>
      section_score ''EXPERIENCE'' (block_S @ ''engineer'')"
    using keyword_terms_of_score [of "''EXPERIENCE''" block_S "''engineer''" "''engineer''"]
      kj counts_S(1) counts_S(3) counts_S(6)
    by blast
  have 3: "section_score ''EXPERIENCE'' (block_W @ ''Summary'') \<le>
      section_score ''EXPERIENCE'' block_W - 3"
    using keyword_terms_of_score [of "''EXPERIENCE''" block_W "''Summary''" "''summary''"]
      ks counts_W(2) counts_W(4) counts_W(5) lengths_W(1) lengths_W(2)
    by blast
  have 4: "section_score ''EXPERIENCE'' (block_S @ ''summary'') \<le>
      section_score ''EXPERIENCE'' block_S - 3"
    using keyword_terms_of_score [of "''EXPERIENCE''" block_S "''summary''" "''summary''"]
      ks counts_S(2) counts_S(4) counts_S(5) lengths_S(1) lengths_S(2)
    by blast
  from kj ks 1 2 3 4 counts_W counts_S lengths_W(3) lengths_W(4) lengths_W(5)
    lengths_S(3) lengths_S(4) lengths_S(5)
  show ?thesis by blast
qed

text \<open>
  C4 as the specification states it does not hold. A second occurrence of \<^verbatim>\<open>engineer\<close>
  appended to the block \<^verbatim>\<open>Senior engineer\<close> leaves the score at -3; and \<^verbatim>\<open>summary\<close>
  appended to a block of 46 characters raises the score from -5 to -3, since the block
  is no longer shorter than 50.
\<close>

theorem keyword_occurrences_not_counted:
  "section_score ''EXPERIENCE'' (''Senior engineer'' @ ''engineer'') =
     section_score ''EXPERIENCE'' ''Senior engineer'' \<and>
   section_score ''EXPERIENCE'' block_V <
     section_score ''EXPERIENCE'' (block_V @ ''summary'')"
  unfolding scores_V by simp

section \<open>Scenario B\<close>

text \<open>
  C5, on the code. On scenario B the section after \<^verbatim>\<open>EXPERIENCE\<close> is located with score
  2, the pipe-format and date-first strategies return nothing on its block, and the
  first pattern of the line-by-line strategy yields one entry, which
  \<^verbatim>\<open>extract_experience\<close> returns: its company is \<^verbatim>\<open>Acme Corp January\<close> and its start date
  \<^verbatim>\<open>2021\<close>, not \<^verbatim>\<open>Acme Corp\<close> and \<^verbatim>\<open>January 2021\<close>.
\<close>

theorem scenario_B_line_by_line:
  "locate scenario_B =
     Some \<lparr>header = ''EXPERIENCE'', position = 0, section_text = block_B, score = 2\<rparr> \<and>
   extract_with_pipe_format block_B = Inr [] \<and>
   extract_with_date_first_format block_B = Inr [] \<and>
   search pattern3 ''Data Analyst, Acme Corp January 2021 - March 2022'' =
     Some [''Data Analyst'', ''Acme Corp January'', ''2021 '', '' March 2022''] \<and>
   extract_with_line_by_line_processing block_B =
     Inr [\<lparr>title = ''Data Analyst'', company = ''Acme Corp January'', start_date = ''2021'',
            end_date = ''March 2022'', location = [], description = []\<rparr>] \<and>
   extract_experience scenario_B =
     Inr [\<lparr>title = ''Data Analyst'', company = ''Acme Corp January'', start_date = ''2021'',
            end_date = ''March 2022'', location = [], description = []\<rparr>] \<and>
   extract_experience scenario_B \<noteq>
     Inr [\<lparr>title = ''Data Analyst'', company = ''Acme Corp'', start_date = ''January 2021'',
            end_date = ''March 2022'', location = [], description = []\<rparr>]"
proof -
  have "search pattern3 ''Data Analyst, Acme Corp January 2021 - March 2022'' =
     Some [''Data Analyst'', ''Acme Corp January'', ''2021 '', '' March 2022'']"
    by code_simp
  then show ?thesis
    by (simp add: locate_B pipe_B date_first_B line_by_line_B run_B entry_B_def)
qed

section \<open>The tie-break of the locator\<close>

text \<open>
  C6. The candidate at the head of the list \<^verbatim>\<open>extract_experience\<close> sorts is one of the
  candidates, and its key (score, position) is the greatest: every candidate has a
  smaller score, or the same score and a position that is not larger. So among
  candidates with the score of the head, the head lies at the largest character offset.
  When its score is positive the head is the section selected: the result of
  \<^verbatim>\<open>extract_experience\<close> is the cascade run on its block (the result of the pipe-format
  strategy on that block when this is a list that is not empty), or the empty list when
  the block is empty. When its score is not positive no section is selected and the
  result is that of the whole-text search.
\<close>

theorem selected_section_has_maximal_key:
  assumes "sort_sections (potential_sections text) = best # rest"
    and "c \<in> set (potential_sections text)"
  shows "best \<in> set (potential_sections text) \<and>
         (score c < score best \<or> (score c = score best \<and> position c \<le> position best)) \<and>
         (score c = score best \<longrightarrow> position c \<le> position best) \<and>
         (score best > 0 \<longrightarrow>
            locate text = Some best \<and>
            extract_experience text =
              (if section_text best \<noteq> [] then cascade (section_text best) text else Inr [])) \<and>
         (score best > 0 \<and> section_text best \<noteq> [] \<and>
          extract_with_pipe_format (section_text best) = Inr p \<and> p \<noteq> [] \<longrightarrow>
            extract_experience text = Inr p) \<and>
         (score best \<le> 0 \<longrightarrow>
            locate text = None \<and>
            extract_experience text = extract_experience_from_entire_text text)"
proof -
  from assms(1) have "best \<in> set (sort_sections (potential_sections text))" by simp
  then have m: "best \<in> set (potential_sections text)" by (simp add: sort_sections_set)
  from assms have "sort_key_of c \<le> sort_key_of best" by (rule sort_sections_head)
  then have k: "score c < score best \<or> (score c = score best \<and> position c \<le> position best)"
    by (auto simp: sort_key_of_def less_eq_prod_def)
  from k have tie: "score c = score best \<longrightarrow> position c \<le> position best"
    by auto
  have pos: "score best > 0 \<longrightarrow> locate text = Some best"
    using assms(1) by (simp add: locate_def)
  have neg: "score best \<le> 0 \<longrightarrow> locate text = None"
    using assms(1) by (simp add: locate_def)
  have run: "score best > 0 \<longrightarrow>
      extract_experience text =
        (if section_text best \<noteq> [] then cascade (section_text best) text else Inr [])"
    using pos by (simp add: extract_experience_locate)
  have pipe: "score best > 0 \<and> section_text best \<noteq> [] \<and>
      extract_with_pipe_format (section_text best) = Inr p \<and> p \<noteq> [] \<longrightarrow>
        extract_experience text = Inr p"
    using run by (simp add: cascade_def bind_def)
  have fall: "score best \<le> 0 \<longrightarrow>
      extract_experience text = extract_experience_from_entire_text text"
    using neg by (simp add: extract_experience_locate)
  from m k tie pos neg run pipe fall show ?thesis by blast
qed

theorem selected_section_has_maximal_key_witness:
  "sort_sections (potential_sections text_T) = best_T # rest_T \<and>
   first_T \<in> set (potential_sections text_T) \<and>
   hd (potential_sections text_T) = first_T \<and>
   best_T \<in> set (potential_sections text_T) \<and>
   score first_T = 5 \<and> score best_T = 5 \<and> position first_T = 0 \<and> position best_T = 37 \<and>
   position first_T \<le> position best_T \<and>
   section_text best_T = block_T \<and> block_T \<noteq> [] \<and>
   extract_with_pipe_format block_T = Inr [entry_T] \<and>
   locate text_T = Some best_T \<and>
   extract_experience text_T = Inr [entry_T]"
proof -
  have f: "first_T \<in> set (potential_sections text_T)"
    and h: "hd (potential_sections text_T) = first_T"
    by (simp_all add: sections_T)
  have v: "score first_T = 5" "score best_T = 5" "position first_T = 0" "position best_T = 37"
    "section_text best_T = block_T" "block_T \<noteq> []"
    by (simp_all add: first_T_def best_T_def block_T_def)
  have p: "extract_with_pipe_format (section_text best_T) = Inr [entry_T]"
    by (simp add: v(5) pipe_T)
  have e: "[entry_T] \<noteq> []" by simp
  have s: "score best_T > 0" "section_text best_T \<noteq> []" "score first_T = score best_T"
    by (simp_all add: v)
  note t = selected_section_has_maximal_key [OF sorted_T f, of "[entry_T]"]
  from t s have 1: "best_T \<in> set (potential_sections text_T)"
    and 2: "position first_T \<le> position best_T"
    and 3: "locate text_T = Some best_T"
    by blast+
  from t s p e have 4: "extract_experience text_T = Inr [entry_T]" by blast
  from sorted_T f h v pipe_T 1 2 3 4 show ?thesis by blast
qed

section \<open>The order of the cascade\<close>

text \<open>
  C7 (as the code has it). For a located section whose block \<open>b\<close> is not empty:
  when the pipe-format strategy returns a list that is not empty, that list is the
  result, whatever the later strategies would do; when it returns the empty list and
  the date-first strategy one that is not empty, that one is the result; when both
  return the empty list and the line-by-line strategy one that is not empty, that one
  is the result; and when all three return the empty list the result is that of the
  whole-text search on the full text. For a located section whose block is empty the
  result is the empty list, whatever any strategy would return.
\<close>

theorem cascade_first_non_empty:
  assumes "locate text = Some best" and "b = section_text best"
  shows
    "(b \<noteq> [] \<and> extract_with_pipe_format b = Inr p \<and> p \<noteq> [] \<longrightarrow>
        extract_experience text = Inr p) \<and>
     (b \<noteq> [] \<and> extract_with_pipe_format b = Inr [] \<and>
      extract_with_date_first_format b = Inr d \<and> d \<noteq> [] \<longrightarrow>
        extract_experience text = Inr d) \<and>
     (b \<noteq> [] \<and> extract_with_pipe_format b = Inr [] \<and>
      extract_with_date_first_format b = Inr [] \<and>
      extract_with_line_by_line_processing b = Inr l \<and> l \<noteq> [] \<longrightarrow>
        extract_experience text = Inr l) \<and>
     (b \<noteq> [] \<and> extract_with_pipe_format b = Inr [] \<and>
      extract_with_date_first_format b = Inr [] \<and>
      extract_with_line_by_line_processing b = Inr [] \<longrightarrow>
        extract_experience text = extract_experience_from_entire_text text) \<and>
     (b = [] \<longrightarrow> extract_experience text = Inr [])"
proof -
  have run: "b \<noteq> [] \<longrightarrow> extract_experience text = cascade b text"
    using assms by (simp add: extract_experience_locate)
  have empty: "b = [] \<longrightarrow> extract_experience text = Inr []"
    using assms by (simp add: extract_experience_locate)
  have 1: "b \<noteq> [] \<and> extract_with_pipe_format b = Inr p \<and> p \<noteq> [] \<longrightarrow>
      extract_experience text = Inr p"
    using run by (simp add: cascade_def bind_def)
  have 2: "b \<noteq> [] \<and> extract_with_pipe_format b = Inr [] \<and>
      extract_with_date_first_format b = Inr d \<and> d \<noteq> [] \<longrightarrow>
        extract_experience text = Inr d"
    using run by (simp add: cascade_def bind_def)
  have 3: "b \<noteq> [] \<and> extract_with_pipe_format b = Inr [] \<and>
      extract_with_date_first_format b = Inr [] \<and>
      extract_with_line_by_line_processing b = Inr l \<and> l \<noteq> [] \<longrightarrow>
        extract_experience text = Inr l"
    using run by (simp add: cascade_def bind_def)
  have 4: "b \<noteq> [] \<and> extract_with_pipe_format b = Inr [] \<and>
      extract_with_date_first_format b = Inr [] \<and>
      extract_with_line_by_line_processing b = Inr [] \<longrightarrow>
        extract_experience text = extract_experience_from_entire_text text"
    using run by (simp add: cascade_def bind_def)
  from 1 2 3 4 empty show ?thesis by blast
qed

theorem cascade_first_non_empty_witness:
  "locate scenario_A =
     Some \<lparr>header = ''PROFESSIONAL EXPERIENCE'', position = 0, section_text = block_A,
            score = 12\<rparr> \<and>
   block_A \<noteq> [] \<and> extract_with_pipe_format block_A = Inr [entry_A] \<and>
   extract_experience scenario_A = Inr [entry_A] \<and>
   locate text_D =
     Some \<lparr>header = ''PROFESSIONAL EXPERIENCE'', position = 0, section_text = block_D,
            score = 7\<rparr> \<and>
   block_D \<noteq> [] \<and> extract_with_pipe_format block_D = Inr [] \<and>
   extract_with_date_first_format block_D = Inr [entry_D] \<and>
   extract_experience text_D = Inr [entry_D] \<and>
   locate scenario_B =
     Some \<lparr>header = ''EXPERIENCE'', position = 0, section_text = block_B, score = 2\<rparr> \<and>
   block_B \<noteq> [] \<and> extract_with_pipe_format block_B = Inr [] \<and>
   extract_with_date_first_format block_B = Inr [] \<and>
   extract_with_line_by_line_processing block_B = Inr [entry_B] \<and>
   extract_experience scenario_B = Inr [entry_B] \<and>
   locate text_F =
     Some \<lparr>header = ''EXPERIENCE'', position = 27, section_text = block_F, score = 1\<rparr> \<and>
   block_F \<noteq> [] \<and> extract_with_pipe_format block_F = Inr [] \<and>
   extract_with_date_first_format block_F = Inr [] \<and>
   extract_with_line_by_line_processing block_F = Inr [] \<and>
   extract_experience text_F = extract_experience_from_entire_text text_F \<and>
   locate text_E =
     Some \<lparr>header = ''PROFESSIONAL EXPERIENCE'', position = 27, section_text = [], score = 5\<rparr> \<and>
   extract_experience text_E = Inr []"
  using
    cascade_first_non_empty [of scenario_A
      "\<lparr>header = ''PROFESSIONAL EXPERIENCE'', position = 0, section_text = block_A,
        score = 12\<rparr>" block_A "[entry_A]"]
    cascade_first_non_empty [of text_D
      "\<lparr>header = ''PROFESSIONAL EXPERIENCE'', position = 0, section_text = block_D,
        score = 7\<rparr>" block_D _ "[entry_D]"]
    cascade_first_non_empty [of scenario_B
      "\<lparr>header = ''EXPERIENCE'', position = 0, section_text = block_B, score = 2\<rparr>"
      block_B _ _ "[entry_B]"]
    cascade_first_non_empty [of text_F
      "\<lparr>header = ''EXPERIENCE'', position = 27, section_text = block_F, score = 1\<rparr>"
      block_F]
    cascade_first_non_empty [of text_E
      "\<lparr>header = ''PROFESSIONAL EXPERIENCE'', position = 27, section_text = [], score = 5\<rparr>"
      "[]"]
  by (simp add: locate_A locate_D locate_B locate_F locate_E block_A_not_empty
      block_D_not_empty block_B_not_empty block_F_not_empty pipe_A pipe_D pipe_B pipe_F
      date_first_D date_first_B date_first_F line_by_line_B line_by_line_F)

text \<open>
  C7 as the specification states it does not hold of every located block. On the text
  \<^verbatim>\<open>PROFESSIONAL EXPERIENCE\<close>, two newlines, \<^verbatim>\<open>Skills\<close>, newline,
  \<^verbatim>\<open>Lead Developer - Initech\<close> the located block is empty (the next section follows at
  once); the first strategy of the order with a result that is not empty is the
  whole-text search, and \<^verbatim>\<open>extract_experience\<close> returns the empty list instead.
\<close>

theorem cascade_not_run_on_empty_block:
  "locate text_G =
     Some \<lparr>header = ''PROFESSIONAL EXPERIENCE'', position = 0, section_text = [], score = 5\<rparr> \<and>
   extract_with_pipe_format [] = Inr [] \<and>
   extract_with_date_first_format [] = Inr [] \<and>
   extract_with_line_by_line_processing [] = Inr [] \<and>
   extract_experience_from_entire_text text_G =
     Inr [\<lparr>title = ''Skills'' @ [CHR 0x0A] @ ''Lead Developer'', company = ''Initech'',
            start_date = [], end_date = [], location = [], description = []\<rparr>] \<and>
   extract_experience text_G = Inr []"
  by (simp add: locate_G strategies_empty entire_text_G run_G entry_G_def)

section \<open>Scenario C\<close>

text \<open>
  C8 (as the code has it). On scenario C the one candidate is the occurrence of
  \<^verbatim>\<open>EXPERIENCE\<close> at offset 67, inside \<^verbatim>\<open>experience in\<close>. Its block starts after the header
  word, so it is \<^verbatim>\<open>in backend development.\<close>, with no summary keyword and no job keyword
  in it; the score is -5 because the block is shorter than 50 characters. No section is
  located, and \<^verbatim>\<open>extract_experience\<close> returns what the whole-text search returns on the
  full input, the empty list.
\<close>

theorem scenario_C_falls_back:
  "potential_sections scenario_C =
     [\<lparr>header = ''EXPERIENCE'', position = 67, section_text = ''in backend development.'',
        score = - 5\<rparr>] \<and>
   summary_keyword_count ''in backend development.'' = 0 \<and>
   job_keyword_count ''in backend development.'' = 0 \<and>
   length ''in backend development.'' < 50 \<and>
   locate scenario_C = None \<and>
   extract_experience scenario_C = extract_experience_from_entire_text scenario_C \<and>
   extract_experience_from_entire_text scenario_C = Inr []"
proof -
  have "summary_keyword_count ''in backend development.'' = 0"
    by code_simp
  moreover have "job_keyword_count ''in backend development.'' = 0"
    by code_simp
  ultimately show ?thesis
    by (simp add: sections_C locate_C run_C entire_text_C)
qed

text \<open>
  C8 as the specification states it does not hold: the block of the only candidate of
  scenario C does not contain the summary keyword \<^verbatim>\<open>experience in\<close>.
\<close>

theorem scenario_C_block_has_no_summary_keyword:
  "potential_sections scenario_C =
     [\<lparr>header = ''EXPERIENCE'', position = 67, section_text = ''in backend development.'',
        score = - 5\<rparr>] \<and>
   \<not> contains (lower ''in backend development.'') ''experience in''"
proof -
  have "\<not> contains (lower ''in backend development.'') ''experience in''"
    by code_simp
  then show ?thesis by (simp add: sections_C)
qed

section \<open>The boundary search is case-sensitive\<close>

lemma boundary_U:
  "next_section_pos after_U = None"
  "contains after_U ''EDUCATION''"
  "bounded_block after_U = ''Intern at Acme'' @ [CHR 0x0A] @ ''EDUCATION'' @ [CHR 0x0A] @ ''SKILLS''"
  by code_simp+

lemma boundary_M:
  "next_section_pos after_M = Some 30"
  "contains (take 30 after_M) ''EDUCATION''"
  "prefix ''Skills'' (drop 30 after_M)"
  "bounded_block after_M = ''Intern at Acme'' @ [CHR 0x0A] @ ''EDUCATION'' @ [CHR 0x0A] @ ''BSc''"
  by code_simp+

text \<open>
  C9. The block of a header occurrence is computed from the text after the header: it
  is that text, stripped, when none of \<^verbatim>\<open>Education\<close>, \<^verbatim>\<open>Skills\<close>, \<^verbatim>\<open>Projects\<close>,
  \<^verbatim>\<open>Certifications\<close> occurs in it with exactly these letters; otherwise it is the text
  before the earliest such occurrence, stripped. The score is computed from this block.
  The boundary is never a position where only \<^verbatim>\<open>EDUCATION\<close>, \<^verbatim>\<open>SKILLS\<close>, \<^verbatim>\<open>PROJECTS\<close> or
  \<^verbatim>\<open>CERTIFICATIONS\<close> starts, and such a heading in the text before the boundary (in the
  whole text after the header when there is no boundary) is in the block.
\<close>

theorem boundary_case_sensitive:
  "section_text (candidate_at text hdr pos) = bounded_block (drop (pos + length hdr) text) \<and>
   score (candidate_at text hdr pos) =
     section_score hdr (bounded_block (drop (pos + length hdr) text)) \<and>
   (next_section_pos a = None \<longleftrightarrow> (\<forall>m\<in>set next_sections. \<not> contains a m)) \<and>
   (next_section_pos a = None \<longrightarrow> bounded_block a = strip a) \<and>
   (next_section_pos a = Some n \<longrightarrow>
      bounded_block a = strip (take n a) \<and>
      (\<exists>m\<in>set next_sections. prefix m (drop n a)) \<and>
      (\<forall>j<n. \<forall>m\<in>set next_sections. \<not> prefix m (drop j a))) \<and>
   (next_section_pos a = Some n \<and> h \<in> set upper_headings \<longrightarrow> \<not> prefix h (drop n a)) \<and>
   (next_section_pos a = None \<and> h \<in> set upper_headings \<and> contains a h \<longrightarrow>
      contains (bounded_block a) h) \<and>
   (next_section_pos a = Some n \<and> h \<in> set upper_headings \<and> contains (take n a) h \<longrightarrow>
      contains (bounded_block a) h)"
proof -
  have cand: "section_text (candidate_at text hdr pos) =
      bounded_block (drop (pos + length hdr) text) \<and>
    score (candidate_at text hdr pos) =
      section_score hdr (bounded_block (drop (pos + length hdr) text))"
    by (simp add: candidate_at_def Let_def)
  have none: "next_section_pos a = None \<longrightarrow> bounded_block a = strip a"
    by (simp add: bounded_block_def)
  have some: "next_section_pos a = Some n \<longrightarrow>
      bounded_block a = strip (take n a) \<and>
      (\<exists>m\<in>set next_sections. prefix m (drop n a)) \<and>
      (\<forall>j<n. \<forall>m\<in>set next_sections. \<not> prefix m (drop j a))"
    using next_section_pos_Some [of a n] by (simp add: bounded_block_def)
  have upper: "next_section_pos a = Some n \<and> h \<in> set upper_headings \<longrightarrow>
      \<not> prefix h (drop n a)"
    using some upper_heading_no_marker [of h _ "drop n a"] by blast
  have keep_all: "next_section_pos a = None \<and> h \<in> set upper_headings \<and> contains a h \<longrightarrow>
      contains (bounded_block a) h"
    using upper_heading_ends [of h] strip_keeps [of a h] by (auto simp: bounded_block_def)
  have keep_before: "next_section_pos a = Some n \<and> h \<in> set upper_headings \<and>
      contains (take n a) h \<longrightarrow> contains (bounded_block a) h"
    using upper_heading_ends [of h] strip_keeps [of "take n a" h]
    by (auto simp: bounded_block_def)
  from cand none some upper keep_all keep_before next_section_pos_None [of a]
  show ?thesis by blast
qed

theorem boundary_case_sensitive_witness:
  "next_section_pos after_U = None \<and> ''EDUCATION'' \<in> set upper_headings \<and>
   contains after_U ''EDUCATION'' \<and>
   bounded_block after_U = strip after_U \<and>
   contains (bounded_block after_U) ''EDUCATION'' \<and>
   next_section_pos after_M = Some 30 \<and>
   contains (take 30 after_M) ''EDUCATION'' \<and>
   bounded_block after_M = strip (take 30 after_M) \<and>
   \<not> prefix ''EDUCATION'' (drop 30 after_M) \<and>
   contains (bounded_block after_M) ''EDUCATION''"
proof -
  have h: "''EDUCATION'' \<in> set upper_headings"
    by (simp add: upper_headings_def)
  have u: "bounded_block after_U = strip after_U \<and>
      contains (bounded_block after_U) ''EDUCATION''"
    using boundary_case_sensitive [of "[]" "[]" 0 after_U 0 "''EDUCATION''"]
      h boundary_U(1) boundary_U(2)
    by blast
  have m: "bounded_block after_M = strip (take 30 after_M) \<and>
      \<not> prefix ''EDUCATION'' (drop 30 after_M) \<and>
      contains (bounded_block after_M) ''EDUCATION''"
    using boundary_case_sensitive [of "[]" "[]" 0 after_M 30 "''EDUCATION''"]
      h boundary_M(1) boundary_M(2)
    by blast
  from h u m boundary_U(1) boundary_U(2) boundary_M(1) boundary_M(2)
  show ?thesis by blast
qed

section \<open>The second pattern of the whole-text search\<close>

lemma for_each_all_empty:
  "(\<And>x. x \<in> set xs \<Longrightarrow> f x = Inr []) \<Longrightarrow> for_each f xs = Inr []"
  by (induction xs) auto

lemma for_each_member:
  "for_each f xs = Inr ys \<Longrightarrow> y \<in> set ys \<Longrightarrow> \<exists>x\<in>set xs. \<exists>zs. f x = Inr zs \<and> y \<in> set zs"
proof (induction xs arbitrary: ys)
  case Nil
  then show ?case by simp
next
  case (Cons x xs)
  from Cons.prems(1) obtain zs ws where
    x: "f x = Inr zs" and r: "for_each f xs = Inr ws" and ys: "ys = zs @ ws"
    by (auto split: sum.splits)
  from Cons.prems(2) ys consider "y \<in> set zs" | "y \<in> set ws" by auto
  then show ?case
  proof cases
    case 1
    with x show ?thesis by auto
  next
    case 2
    from Cons.IH [OF r 2] show ?thesis by auto
  qed
qed

lemma pattern2_match_dropped:
  assumes "m \<in> set (findall job_pattern2 text)"
  shows "length m = 3 \<and> entire_text_entry m = Inr []"
proof -
  from assms have "length m = ncaps job_pattern2" by (rule findall_caps)
  then have "length m = 3" by (simp add: job_pattern2_def)
  then show ?thesis by (simp add: entire_text_entry_def)
qed

lemma pattern2_loop_empty: "for_each entire_text_entry (findall job_pattern2 text) = Inr []"
  by (rule for_each_all_empty) (simp add: pattern2_match_dropped)

lemma entire_text_without_pattern2:
  "extract_experience_from_entire_text text =
     for_each (\<lambda>pattern. for_each entire_text_entry (findall pattern text))
       [job_pattern1, job_pattern3]"
  by (simp add: extract_experience_from_entire_text_def job_patterns_def pattern2_loop_empty
      split: sum.splits)

lemma pattern1_end_date:
  assumes m: "m \<in> set (findall job_pattern1 text)"
    and e: "entire_text_entry m = Inr zs" "e \<in> set zs"
  shows "end_date e \<noteq> ''Present''"
proof -
  from m have "length m = ncaps job_pattern1" by (rule findall_caps)
  then have l: "length m = 4" by (simp add: job_pattern1_def)
  have "job_pattern1 =
      [Cap title_case, Out (Sym (Is CHR '','')), Out (Plus sp), Cap title_case, Out (Plus sp),
       Cap month_20XX, Out (Star sp), Out (Sym (Is CHR ''-'')), Out (Star sp)] @
      [Cap (Alt month_20XX (Lit ''Current''))]"
    by (simp add: job_pattern1_def)
  with m findall_last_cap obtain caps0 s0 t where
    t: "t \<in> set (rmatch (Alt month_20XX (Lit ''Current'')) s0)"
    and c: "m = caps0 @ [take (length s0 - length t) s0]"
    by metis
  from l obtain a b c' d where abcd: "m = [a, b, c', d]" using length_four by blast
  with c have "d = take (length s0 - length t) s0"
    by (metis last_snoc last.simps list.distinct(1))
  with end_group_not_Present [OF t] have "strip d \<noteq> ''Present''" by simp
  with abcd e show ?thesis
    by (auto simp: entire_text_entry_def bind_def split: if_splits)
qed

lemma pattern3_end_date:
  assumes m: "m \<in> set (findall job_pattern3 text)"
    and e: "entire_text_entry m = Inr zs" "e \<in> set zs"
  shows "end_date e \<noteq> ''Present''"
proof -
  from m have "length m = ncaps job_pattern3" by (rule findall_caps)
  then have "length m = 2" by (simp add: job_pattern3_def)
  then obtain a b where "m = [a, b]" using length_two by blast
  with e show ?thesis
    by (auto simp: entire_text_entry_def bind_def split: if_splits)
qed

lemma entire_text_end_date:
  assumes "extract_experience_from_entire_text text = Inr es" and "e \<in> set es"
  shows "end_date e \<noteq> ''Present''"
proof -
  from assms(1) have
    "for_each (\<lambda>pattern. for_each entire_text_entry (findall pattern text))
       [job_pattern1, job_pattern3] = Inr es"
    by (simp only: entire_text_without_pattern2)
  from for_each_member [OF this assms(2)] obtain pattern zs where
    p: "pattern = job_pattern1 \<or> pattern = job_pattern3"
    and z: "for_each entire_text_entry (findall pattern text) = Inr zs" and ez: "e \<in> set zs"
    by auto
  from for_each_member [OF z ez] obtain m ws where
    m: "m \<in> set (findall pattern text)" and w: "entire_text_entry m = Inr ws" "e \<in> set ws"
    by auto
  from p show ?thesis
  proof
    assume "pattern = job_pattern1"
    with m w show ?thesis using pattern1_end_date by blast
  next
    assume "pattern = job_pattern3"
    with m w show ?thesis using pattern3_end_date by blast
  qed
qed

lemma matches_P:
  "findall job_pattern2 text_P = [[''Data Engineer'', ''Acme'', ''March 2021'']]"
  by code_simp

lemma entire_text_P: "extract_experience_from_entire_text text_P = Inr entries_P"
  by code_simp

text \<open>
  C10. Every match of the second pattern of the whole-text search has three groups, and
  the loop body, which handles four groups and two, adds no entry for it. So the result
  of the search is that of the same loop over the first and the third pattern alone,
  and no entry it returns has the end date \<^verbatim>\<open>Present\<close>: the end date of the first
  pattern is \<^verbatim>\<open>Current\<close> or ends in \<^verbatim>\<open>20XX\<close>, that of the third is empty.
\<close>

theorem second_job_pattern_never_emits:
  "(m \<in> set (findall job_pattern2 text) \<longrightarrow> length m = 3 \<and> entire_text_entry m = Inr []) \<and>
   extract_experience_from_entire_text text =
     for_each (\<lambda>pattern. for_each entire_text_entry (findall pattern text))
       [job_pattern1, job_pattern3] \<and>
   (extract_experience_from_entire_text text = Inr es \<and> e \<in> set es \<longrightarrow>
      end_date e \<noteq> ''Present'')"
  using pattern2_match_dropped [of m "text"] entire_text_without_pattern2 [of "text"]
    entire_text_end_date [of "text" es e]
  by blast

theorem second_job_pattern_never_emits_witness:
  "[''Data Engineer'', ''Acme'', ''March 2021''] \<in> set (findall job_pattern2 text_P) \<and>
   entire_text_entry [''Data Engineer'', ''Acme'', ''March 2021''] = Inr [] \<and>
   extract_experience_from_entire_text text_P = Inr entries_P \<and>
   hd entries_P \<in> set entries_P \<and>
   end_date (hd entries_P) \<noteq> ''Present''"
proof -
  have 1: "[''Data Engineer'', ''Acme'', ''March 2021''] \<in> set (findall job_pattern2 text_P)"
    by (simp add: matches_P)
  have 2: "hd entries_P \<in> set entries_P"
    by (simp add: entries_P_def)
  from 1 2 entire_text_P
    second_job_pattern_never_emits [of "[''Data Engineer'', ''Acme'', ''March 2021'']" text_P
      entries_P "hd entries_P"]
  show ?thesis by blast
qed

end
